theory Spec2Isabelle
  imports Main "HOL-Library.Word"
begin

unbundle bit_operations_syntax

section \<open>JavaScript values\<close>

text \<open>
  A JavaScript string is a sequence of UTF-16 code units. Literals of the source are
  written with \<open>js\<close>; characters that a HOL string literal cannot hold (carriage
  return, line feed, the double quote, the backslash) are written as code units.
\<close>

type_synonym codeunit = "16 word"
type_synonym jsstring = "codeunit list"

definition js :: "string \<Rightarrow> jsstring" where
  "js s = map of_char s"

lemma js_simps: "js [] = []" "js (c # s) = of_char c # js s"
  by (simp_all add: js_def)

definition dquote :: codeunit where
  "dquote = 34"

definition backslash :: codeunit where
  "backslash = 92"

text \<open>
  An awaited call either rejects (the message of the thrown \<open>Error\<close>) or is fulfilled
  with a value. Where the source tests a value for \<open>undefined\<close>/\<open>null\<close>, the value
  is an \<open>option\<close>.
\<close>

datatype 'a promise = Rejected jsstring | Fulfilled 'a

section \<open>The editor API used by the handlers\<close>

record position =
  line :: nat
  character :: nat

text \<open>The field \<open>finish\<close> is the source's \<open>end\<close>.\<close>

record range =
  start :: position
  finish :: position

record uri =
  scheme :: jsstring
  toString :: jsstring

record location =
  loc_uri :: uri
  loc_range :: range

record symbolInformation =
  si_name :: jsstring
  si_kind :: nat
  si_location :: location

text \<open>
  A document symbol with its nested children; a symbol whose \<open>children\<close> is missing
  behaves as one with no children (the source tests
  \<open>symbol.children && symbol.children.length > 0\<close>).
\<close>

datatype documentSymbol =
  DocumentSymbol (ds_name: jsstring) (ds_range: range) (ds_children: "documentSymbol list")

datatype hover = Hover jsstring

record textDocument =
  doc_uri :: uri
  getText :: jsstring
  positionAt :: "nat \<Rightarrow> position"

record workspaceFolder =
  fsPath :: jsstring

text \<open>
  The language-intelligence engine is outside the repository: its commands are the
  fields of this record, each answering a query with a promise. \<open>SymbolKind\<close> is the
  reverse mapping of the API's enumeration.
\<close>

record vscode =
  executeWorkspaceSymbolProvider :: "jsstring \<Rightarrow> symbolInformation list option promise"
  executeReferenceProvider :: "uri \<Rightarrow> position \<Rightarrow> location list option promise"
  executeDocumentSymbolProvider :: "uri \<Rightarrow> documentSymbol list option promise"
  executeHoverProvider :: "uri \<Rightarrow> position \<Rightarrow> hover list option promise"
  textDocuments :: "textDocument list"
  getWorkspaceFolder :: "uri \<Rightarrow> workspaceFolder option"
  workspaceFolders :: "workspaceFolder list option"
  SymbolKind :: "nat \<Rightarrow> jsstring option"

section \<open>Response payloads\<close>

record referenceRange =
  rr_uri :: jsstring
  rr_range :: range

text \<open>The mapping \<open>loc => ({uri: loc.uri.toString(), range: {...}})\<close> of all three handlers.\<close>

definition referenceData :: "location \<Rightarrow> referenceRange" where
  "referenceData loc =
     \<lparr>rr_uri = toString (loc_uri loc),
      rr_range = \<lparr>start = \<lparr>line = line (start (loc_range loc)),
                                character = character (start (loc_range loc))\<rparr>,
                  finish = \<lparr>line = line (finish (loc_range loc)),
                                 character = character (finish (loc_range loc))\<rparr>\<rparr>\<rparr>"

text \<open>
  The result object of a successful lookup. A field that a branch of the source does not
  write is \<open>None\<close>.
\<close>

record 'symb findReferencesResult =
  symbol :: 'symb
  references :: "referenceRange list"
  message :: "jsstring option"
  totalReferences :: "nat option"

record httpSymbol =
  hs_name :: jsstring
  hs_kind :: "jsstring option"
  hs_uri :: jsstring
  hs_range :: range

record pipeSymbol =
  ps_name :: jsstring
  ps_uri :: jsstring
  ps_position :: position

datatype httpBody =
    ErrorExample jsstring jsstring
  | ErrorNotFound jsstring jsstring jsstring
  | ErrorMessage jsstring jsstring
  | Result "httpSymbol findReferencesResult"

record httpResponse =
  status :: nat
  body :: httpBody

section \<open>The HTTP variant: \<open>src/extension.ts\<close>\<close>

definition symbolJson :: "vscode \<Rightarrow> symbolInformation \<Rightarrow> httpSymbol" where
  "symbolJson api symb =
     \<lparr>hs_name = si_name symb,
      hs_kind = SymbolKind api (si_kind symb),
      hs_uri = toString (loc_uri (si_location symb)),
      hs_range = \<lparr>start = \<lparr>line = line (start (loc_range (si_location symb))),
                                character = character (start (loc_range (si_location symb)))\<rparr>,
                  finish = \<lparr>line = line (finish (loc_range (si_location symb))),
                                 character = character (finish (loc_range (si_location symb)))\<rparr>\<rparr>\<rparr>"

definition failed500 :: "jsstring \<Rightarrow> httpResponse" where
  "failed500 msg = \<lparr>status = 500, body = ErrorMessage (js ''Failed to find references'') msg\<rparr>"

definition notFound404 :: "jsstring \<Rightarrow> httpResponse" where
  "notFound404 symbolName =
     \<lparr>status = 404,
      body = ErrorNotFound (js ''Symbol not found'') symbolName
               (js ''No symbol named '' @ [dquote] @ symbolName @ [dquote]
                  @ js '' found in the workspace'')\<rparr>"

definition noReferences200 :: "vscode \<Rightarrow> symbolInformation \<Rightarrow> httpResponse" where
  "noReferences200 api symb =
     \<lparr>status = 200,
      body = Result \<lparr>symbol = symbolJson api symb, references = [],
                     message = Some (js ''Symbol found but no references''),
                     totalReferences = None\<rparr>\<rparr>"

text \<open>
  \<open>req.body\<close> as \<open>express.json()\<close> leaves it for the handler: the parsed object, of which the
  handler reads the field \<open>symbolName\<close> only (a string, or absent), or \<open>undefined\<close> when no
  body was parsed (Express 5 leaves it so; Express 4 puts the empty object there).
\<close>

datatype requestBody = Undefined | Body "jsstring option"

text \<open>
  The route handler \<open>app.post('/api/findReferences')\<close>. The pattern
  \<open>const { symbolName } = req.body\<close> stands inside the \<open>try\<close>: matched against \<open>undefined\<close>
  it throws a \<open>TypeError\<close>, whose message is the runtime's and is a parameter here. Then
  \<open>!symbolName\<close> holds for a missing field and for the empty string. The \<open>catch\<close> of the
  handler answers every exception and every rejection with status 500.
\<close>

definition postFindReferences :: "jsstring \<Rightarrow> vscode \<Rightarrow> requestBody \<Rightarrow> httpResponse" where
  "postFindReferences typeError api req_body =
     (case req_body of
        Undefined \<Rightarrow> failed500 typeError
      | Body None \<Rightarrow> \<lparr>status = 400,
                 body = ErrorExample (js ''Missing required field: symbolName'')
                          (js ''CustomeFormField'')\<rparr>
      | Body (Some nm) \<Rightarrow>
          if nm = [] then
            \<lparr>status = 400,
             body = ErrorExample (js ''Missing required field: symbolName'')
                      (js ''CustomeFormField'')\<rparr>
          else
            (case executeWorkspaceSymbolProvider api nm of
               Rejected msg \<Rightarrow> failed500 msg
             | Fulfilled None \<Rightarrow> notFound404 nm
             | Fulfilled (Some []) \<Rightarrow> notFound404 nm
             | Fulfilled (Some (symb # _)) \<Rightarrow>
                 (case executeReferenceProvider api (loc_uri (si_location symb))
                         (start (loc_range (si_location symb))) of
                    Rejected msg \<Rightarrow> failed500 msg
                  | Fulfilled None \<Rightarrow> noReferences200 api symb
                  | Fulfilled (Some []) \<Rightarrow> noReferences200 api symb
                  | Fulfilled (Some (r # rs)) \<Rightarrow>
                      \<lparr>status = 200,
                       body = Result \<lparr>symbol = symbolJson api symb,
                                      references = map referenceData (r # rs),
                                      message = None,
                                      totalReferences = Some (length (map referenceData (r # rs)))\<rparr>\<rparr>)))"

text \<open>
  The routes that \<open>startServer\<close> registers, by method and path. Express matches a path
  as its defaults say: the case of letters is ignored, and one trailing slash is allowed.
  A request that matches no route reaches no handler of this application.
\<close>

datatype httpMethod = GET | POST

datatype handler = Health | FindReferences

definition startServer_routes :: "(httpMethod \<times> string \<times> handler) list" where
  "startServer_routes = [(GET, ''/api/health'', Health), (POST, ''/api/findReferences'', FindReferences)]"

definition lowerChar :: "char \<Rightarrow> char" where
  "lowerChar c =
     (if 65 \<le> (of_char c :: nat) \<and> (of_char c :: nat) \<le> 90 then char_of (of_char c + 32 :: nat)
      else c)"

definition pathMatches :: "string \<Rightarrow> string \<Rightarrow> bool" where
  "pathMatches p path \<longleftrightarrow>
     map lowerChar path = map lowerChar p \<or> map lowerChar path = map lowerChar p @ ''/''"

definition route :: "httpMethod \<Rightarrow> string \<Rightarrow> handler option" where
  "route m path =
     map_option (\<lambda>(_, _, h). h)
       (List.find (\<lambda>(m', p, _). m' = m \<and> pathMatches p path) startServer_routes)"

text \<open>
  The application as a whole. \<open>app.use(express.json())\<close> stands before the routes: where
  the body parser fails on the body of a request (a body sent as JSON that is not JSON),
  Express answers with the status of the parser's error, 400, and no route is tried. Whether
  the parser fails is an input here. Otherwise the request goes to the routes, and Express
  answers one that matches none of them with 404.
\<close>

datatype served = ParserError400 | NoRoute404 | HandledBy handler

definition startServer :: "bool \<Rightarrow> httpMethod \<Rightarrow> string \<Rightarrow> served" where
  "startServer parserFails m path =
     (if parserFails then ParserError400
      else (case route m path of None \<Rightarrow> NoRoute404 | Some h \<Rightarrow> HandledBy h))"

section \<open>The named-pipe variant, shared helpers\<close>

record symbolLocation =
  sl_uri :: uri
  sl_position :: position

text \<open>\<open>findSymbolInTree\<close>: depth-first, a symbol before its children, children before later siblings.\<close>

fun findSymbolInTree :: "documentSymbol list \<Rightarrow> jsstring \<Rightarrow> documentSymbol option" where
  "findSymbolInTree [] symbolName = None"
| "findSymbolInTree (DocumentSymbol nm rg children # rest) symbolName =
     (if nm = symbolName then Some (DocumentSymbol nm rg children)
      else if children \<noteq> [] then
        (case findSymbolInTree children symbolName of
           Some found \<Rightarrow> Some found
         | None \<Rightarrow> findSymbolInTree rest symbolName)
      else findSymbolInTree rest symbolName)"

text \<open>
  \<open>escapeRegExp\<close>: every character of the class \<open>[.*+?^${}()|[\]\\]\<close> gets a backslash
  in front.
\<close>

definition regexSpecial :: "codeunit \<Rightarrow> bool" where
  "regexSpecial c \<longleftrightarrow> c \<in> set (js ''.*+?^${}()|[]'') \<or> c = backslash"

definition escapeRegExp :: "jsstring \<Rightarrow> jsstring" where
  "escapeRegExp s = concat (map (\<lambda>c. if regexSpecial c then [backslash, c] else [c]) s)"

text \<open>
  The regular expressions the source builds are \<open>\b\<close>, an escaped name, \<open>\b\<close>.
  \<open>compileRegExp\<close> reads such a pattern as the RegExp constructor does: \<open>\b\<close> is the
  word-boundary assertion, a backslash before a syntax character makes it literal, any
  other character that is not a syntax character stands for itself. A pattern outside this
  fragment is not compiled by the model (\<open>None\<close>).
\<close>

datatype token = Lit codeunit | WordBoundary

fun compileRegExp :: "jsstring \<Rightarrow> token list option" where
  "compileRegExp [] = Some []"
| "compileRegExp [c] = (if regexSpecial c then None else Some [Lit c])"
| "compileRegExp (c # d # s) =
     (if c = backslash then
        (if d = of_char CHR ''b'' then map_option (\<lambda>ts. WordBoundary # ts) (compileRegExp s)
         else if regexSpecial d then map_option (\<lambda>ts. Lit d # ts) (compileRegExp s)
         else None)
      else if regexSpecial c then None
      else map_option (\<lambda>ts. Lit c # ts) (compileRegExp (d # s)))"

text \<open>Word characters are \<open>[A-Za-z0-9_]\<close>; \<open>\b\<close> holds where exactly one neighbour is one.\<close>

definition isWordChar :: "codeunit \<Rightarrow> bool" where
  "isWordChar c \<longleftrightarrow>
     (of_char CHR ''a'' \<le> c \<and> c \<le> of_char CHR ''z'') \<or>
     (of_char CHR ''A'' \<le> c \<and> c \<le> of_char CHR ''Z'') \<or>
     (of_char CHR ''0'' \<le> c \<and> c \<le> of_char CHR ''9'') \<or>
     c = of_char CHR ''_''"

definition wordAt :: "jsstring \<Rightarrow> nat \<Rightarrow> bool" where
  "wordAt text i \<longleftrightarrow> i < length text \<and> isWordChar (text ! i)"

definition isBoundary :: "jsstring \<Rightarrow> nat \<Rightarrow> bool" where
  "isBoundary text i \<longleftrightarrow> ((0 < i \<and> wordAt text (i - 1)) \<noteq> wordAt text i)"

text \<open>Matching a compiled pattern at an index gives the index where the match ends.\<close>

fun matchAt :: "token list \<Rightarrow> jsstring \<Rightarrow> nat \<Rightarrow> nat option" where
  "matchAt [] text i = Some i"
| "matchAt (Lit c # ts) text i =
     (if i < length text \<and> text ! i = c then matchAt ts text (Suc i) else None)"
| "matchAt (WordBoundary # ts) text i =
     (if isBoundary text i then matchAt ts text i else None)"

text \<open>
  \<open>regex.exec(text)\<close> searching from \<open>lastIndex\<close>: the leftmost index at which the pattern
  matches, with the end of the match (the next \<open>lastIndex\<close> of a global expression).
\<close>

definition regexExec :: "token list \<Rightarrow> jsstring \<Rightarrow> nat \<Rightarrow> (nat \<times> nat) option" where
  "regexExec re text lastIndex =
     (case List.find (\<lambda>i. matchAt re text i \<noteq> None) [lastIndex ..< Suc (length text)] of
        None \<Rightarrow> None
      | Some i \<Rightarrow> (case matchAt re text i of None \<Rightarrow> None | Some e \<Rightarrow> Some (i, e)))"

definition wordPattern :: "jsstring \<Rightarrow> jsstring" where
  "wordPattern symbolName = [backslash, of_char CHR ''b''] @ escapeRegExp symbolName @ [backslash, of_char CHR ''b'']"

definition hoverPresent :: "hover list option \<Rightarrow> bool" where
  "hoverPresent hovers = (case hovers of None \<Rightarrow> False | Some hs \<Rightarrow> 0 < length hs)"

section \<open>The named-pipe variant, earlier version: \<open>test-sample.ts\<close>, lines 137 to 306\<close>

text \<open>
  The \<open>while ((match = regex.exec(text)) !== null)\<close> loop of \<open>findSymbolInDocuments\<close>,
  with the global expression's \<open>lastIndex\<close> as the loop variable. A match of length zero
  leaves \<open>lastIndex\<close> where it is, so the loop need not end: not returning is \<open>None\<close>.
\<close>

partial_function (option) hoverLoop ::
  "vscode \<Rightarrow> textDocument \<Rightarrow> token list \<Rightarrow> nat \<Rightarrow> symbolLocation option promise option" where
  [code]: "hoverLoop api document regex lastIndex =
     (case regexExec regex (getText document) lastIndex of
        None \<Rightarrow> Some (Fulfilled None)
      | Some (index, lastIndex') \<Rightarrow>
          (case executeHoverProvider api (doc_uri document) (positionAt document index) of
             Rejected msg \<Rightarrow> Some (Rejected msg)
           | Fulfilled hovers \<Rightarrow>
               if hoverPresent hovers then
                 Some (Fulfilled (Some \<lparr>sl_uri = doc_uri document,
                                         sl_position = positionAt document index\<rparr>))
               else hoverLoop api document regex lastIndex'))"

text \<open>
  \<open>findSymbolInDocuments\<close>: the loop over \<open>vscode.workspace.textDocuments\<close>. The pattern
  the source builds always compiles (\<open>compile_wordPattern\<close> below), so the branch for a
  pattern outside the modelled fragment is never taken.
\<close>

fun findSymbolInDocuments_loop ::
  "vscode \<Rightarrow> jsstring \<Rightarrow> textDocument list \<Rightarrow> symbolLocation option promise option" where
  "findSymbolInDocuments_loop api symbolName [] = Some (Fulfilled None)"
| "findSymbolInDocuments_loop api symbolName (document # rest) =
     (if scheme (doc_uri document) \<noteq> js ''file'' then
        findSymbolInDocuments_loop api symbolName rest
      else
        (case executeDocumentSymbolProvider api (doc_uri document) of
           Rejected msg \<Rightarrow> Some (Rejected msg)
         | Fulfilled documentSymbols \<Rightarrow>
             (case (case documentSymbols of
                      None \<Rightarrow> None
                    | Some dss \<Rightarrow> findSymbolInTree dss symbolName) of
                Some found \<Rightarrow>
                  Some (Fulfilled (Some \<lparr>sl_uri = doc_uri document,
                                          sl_position = start (ds_range found)\<rparr>))
              | None \<Rightarrow>
                  (case compileRegExp (wordPattern symbolName) of
                     None \<Rightarrow> Some (Rejected (js ''Invalid regular expression''))
                   | Some regex \<Rightarrow>
                       (case hoverLoop api document regex 0 of
                          None \<Rightarrow> None
                        | Some (Rejected msg) \<Rightarrow> Some (Rejected msg)
                        | Some (Fulfilled (Some found)) \<Rightarrow> Some (Fulfilled (Some found))
                        | Some (Fulfilled None) \<Rightarrow>
                            findSymbolInDocuments_loop api symbolName rest)))))"

definition findSymbolInDocuments ::
  "vscode \<Rightarrow> jsstring \<Rightarrow> symbolLocation option promise option" where
  "findSymbolInDocuments api symbolName =
     findSymbolInDocuments_loop api symbolName (textDocuments api)"

text \<open>
  Step 1 of the earlier \<open>handleFindReferences\<close>: the workspace symbols, and among them the
  first whose name is the requested name.
\<close>

definition workspaceStage1 ::
  "symbolInformation list option \<Rightarrow> jsstring \<Rightarrow> symbolLocation option" where
  "workspaceStage1 symbols symbolName =
     (case symbols of
        None \<Rightarrow> None
      | Some ss \<Rightarrow>
          if 0 < length ss then
            (case List.find (\<lambda>s. si_name s = symbolName) ss of
               None \<Rightarrow> None
             | Some symb \<Rightarrow> Some \<lparr>sl_uri = loc_uri (si_location symb),
                                   sl_position = start (loc_range (si_location symb))\<rparr>)
          else None)"

definition pipeSymbolJson :: "jsstring \<Rightarrow> symbolLocation \<Rightarrow> pipeSymbol" where
  "pipeSymbolJson symbolName symbolLocation =
     \<lparr>ps_name = symbolName,
      ps_uri = toString (sl_uri symbolLocation),
      ps_position = \<lparr>line = line (sl_position symbolLocation),
                     character = character (sl_position symbolLocation)\<rparr>\<rparr>"

text \<open>Step 3 of the earlier \<open>handleFindReferences\<close>, from the located symbol on.\<close>

definition references1 ::
  "vscode \<Rightarrow> jsstring \<Rightarrow> symbolLocation \<Rightarrow> pipeSymbol findReferencesResult promise" where
  "references1 api symbolName symbolLocation =
     (case executeReferenceProvider api (sl_uri symbolLocation) (sl_position symbolLocation) of
        Rejected msg \<Rightarrow> Rejected msg
      | Fulfilled None \<Rightarrow>
          Fulfilled \<lparr>symbol = pipeSymbolJson symbolName symbolLocation, references = [],
                     message = Some (js ''Symbol found but no references''),
                     totalReferences = None\<rparr>
      | Fulfilled (Some []) \<Rightarrow>
          Fulfilled \<lparr>symbol = pipeSymbolJson symbolName symbolLocation, references = [],
                     message = Some (js ''Symbol found but no references''),
                     totalReferences = None\<rparr>
      | Fulfilled (Some (r # rs)) \<Rightarrow>
          Fulfilled \<lparr>symbol = pipeSymbolJson symbolName symbolLocation,
                     references = map referenceData (r # rs),
                     message = None,
                     totalReferences = Some (length (map referenceData (r # rs)))\<rparr>)"

definition missingField :: jsstring where
  "missingField = js ''Missing required field: symbolName''"

definition noSymbol1 :: "jsstring \<Rightarrow> jsstring" where
  "noSymbol1 symbolName =
     js ''No symbol named '' @ [dquote] @ symbolName @ [dquote]
       @ js '' found in the workspace or open documents''"

text \<open>
  The earlier \<open>handleFindReferences\<close>. The argument is \<open>params.symbolName\<close>, \<open>None\<close> when
  the field is missing. A thrown error rejects the promise the handler returns; the outer
  \<open>option\<close> is \<open>None\<close> when the handler does not return.
\<close>

definition handleFindReferences1 ::
  "vscode \<Rightarrow> jsstring option \<Rightarrow> pipeSymbol findReferencesResult promise option" where
  "handleFindReferences1 api symbolName =
     (case symbolName of
        None \<Rightarrow> Some (Rejected missingField)
      | Some nm \<Rightarrow>
          if nm = [] then Some (Rejected missingField)
          else
            (case executeWorkspaceSymbolProvider api nm of
               Rejected msg \<Rightarrow> Some (Rejected msg)
             | Fulfilled symbols \<Rightarrow>
                 (case workspaceStage1 symbols nm of
                    Some symbolLocation \<Rightarrow> Some (references1 api nm symbolLocation)
                  | None \<Rightarrow>
                      (case findSymbolInDocuments api nm of
                         None \<Rightarrow> None
                       | Some (Rejected msg) \<Rightarrow> Some (Rejected msg)
                       | Some (Fulfilled None) \<Rightarrow> Some (Rejected (noSymbol1 nm))
                       | Some (Fulfilled (Some symbolLocation)) \<Rightarrow>
                           Some (references1 api nm symbolLocation)))))"

section \<open>The named-pipe variant, later version: \<open>test-sample.ts\<close>, lines 419 to 542\<close>

text \<open>
  The fallback loop of \<open>findSymbolLocation\<close> over \<open>vscode.workspace.textDocuments\<close>. The
  expression is not global here: \<open>exec\<close> searches from index 0, once.
\<close>

fun findSymbolLocation_loop ::
  "vscode \<Rightarrow> jsstring \<Rightarrow> textDocument list \<Rightarrow> symbolLocation option promise" where
  "findSymbolLocation_loop api symbolName [] = Fulfilled None"
| "findSymbolLocation_loop api symbolName (document # rest) =
     (if scheme (doc_uri document) \<noteq> js ''file'' then
        findSymbolLocation_loop api symbolName rest
      else if getWorkspaceFolder api (doc_uri document) = None then
        findSymbolLocation_loop api symbolName rest
      else
        (case executeDocumentSymbolProvider api (doc_uri document) of
           Rejected msg \<Rightarrow> Rejected msg
         | Fulfilled documentSymbols \<Rightarrow>
             (case findSymbolInTree (case documentSymbols of None \<Rightarrow> [] | Some dss \<Rightarrow> dss)
                     symbolName of
                Some found \<Rightarrow>
                  Fulfilled (Some \<lparr>sl_uri = doc_uri document,
                                    sl_position = start (ds_range found)\<rparr>)
              | None \<Rightarrow>
                  (case compileRegExp (wordPattern symbolName) of
                     None \<Rightarrow> Rejected (js ''Invalid regular expression'')
                   | Some regex \<Rightarrow>
                       (case regexExec regex (getText document) 0 of
                          None \<Rightarrow> findSymbolLocation_loop api symbolName rest
                        | Some (index, _) \<Rightarrow>
                            (case executeHoverProvider api (doc_uri document)
                                    (positionAt document index) of
                               Rejected msg \<Rightarrow> Rejected msg
                             | Fulfilled hovers \<Rightarrow>
                                 if hoverPresent hovers then
                                   Fulfilled (Some \<lparr>sl_uri = doc_uri document,
                                                     sl_position = positionAt document index\<rparr>)
                                 else findSymbolLocation_loop api symbolName rest))))))"

definition findSymbolLocation :: "vscode \<Rightarrow> jsstring \<Rightarrow> symbolLocation option promise" where
  "findSymbolLocation api symbolName =
     (case executeWorkspaceSymbolProvider api symbolName of
        Rejected msg \<Rightarrow> Rejected msg
      | Fulfilled symbols \<Rightarrow>
          (case (case symbols of
                   None \<Rightarrow> None
                 | Some ss \<Rightarrow> List.find (\<lambda>s. si_name s = symbolName) ss) of
             Some exactMatch \<Rightarrow>
               Fulfilled (Some \<lparr>sl_uri = loc_uri (si_location exactMatch),
                                 sl_position = start (loc_range (si_location exactMatch))\<rparr>)
           | None \<Rightarrow> findSymbolLocation_loop api symbolName (textDocuments api)))"

definition noSymbol2 :: "jsstring \<Rightarrow> jsstring" where
  "noSymbol2 symbolName =
     js ''No symbol named '' @ [dquote] @ symbolName @ [dquote] @ js '' found in the workspace''"

text \<open>
  The later \<open>handleFindReferences\<close>; \<open>references?.length || 0\<close> is the length of the
  engine's list, and 0 when there is none.
\<close>

definition handleFindReferences2 ::
  "vscode \<Rightarrow> jsstring option \<Rightarrow> pipeSymbol findReferencesResult promise" where
  "handleFindReferences2 api symbolName =
     (case symbolName of
        None \<Rightarrow> Rejected missingField
      | Some nm \<Rightarrow>
          if nm = [] then Rejected missingField
          else
            (case findSymbolLocation api nm of
               Rejected msg \<Rightarrow> Rejected msg
             | Fulfilled None \<Rightarrow> Rejected (noSymbol2 nm)
             | Fulfilled (Some symbolLocation) \<Rightarrow>
                 (case executeReferenceProvider api (sl_uri symbolLocation)
                         (sl_position symbolLocation) of
                    Rejected msg \<Rightarrow> Rejected msg
                  | Fulfilled refs \<Rightarrow>
                      Fulfilled
                        \<lparr>symbol = pipeSymbolJson nm symbolLocation,
                         references =
                           map referenceData (case refs of None \<Rightarrow> [] | Some rs \<Rightarrow> rs),
                         message = None,
                         totalReferences =
                           Some (case refs of
                                   None \<Rightarrow> 0
                                 | Some rs \<Rightarrow> if length rs \<noteq> 0 then length rs else 0)\<rparr>)))"

section \<open>The message framer of the client: \<open>test-client-standalone.js\<close>\<close>

text \<open>
  The client keeps the received text in \<open>this.buffer\<close>, a string: every chunk of bytes
  from the socket is turned into a string (\<open>data.toString()\<close>) and appended, then
  \<open>processBuffer\<close> runs. All positions and lengths in \<open>processBuffer\<close> are therefore
  counted in UTF-16 code units of the buffered string.
\<close>

type_synonym byte = "8 word"

definition CRLFCRLF :: jsstring where
  "CRLFCRLF = [13, 10, 13, 10]"

text \<open>\<open>buffer.indexOf(pat)\<close>: the index of the first occurrence, \<open>None\<close> for -1.\<close>

fun indexOf :: "jsstring \<Rightarrow> jsstring \<Rightarrow> nat option" where
  "indexOf [] pat = (if pat = [] then Some 0 else None)"
| "indexOf (c # s) pat =
     (if take (length pat) (c # s) = pat then Some 0 else map_option Suc (indexOf s pat))"

text \<open>
  \<open>headers.match(/Content-Length: (\d+)/i)\<close>: the leftmost place where the literal text
  matches, letters compared without case, followed by at least one decimal digit; the group
  is the longest run of digits there. Without the \<open>u\<close> flag a letter of the pattern matches
  its two ASCII forms only.
\<close>

definition isDigit :: "codeunit \<Rightarrow> bool" where
  "isDigit c \<longleftrightarrow> 48 \<le> c \<and> c \<le> 57"

definition lowerAscii :: "codeunit \<Rightarrow> codeunit" where
  "lowerAscii c = (if 65 \<le> c \<and> c \<le> 90 then c + 32 else c)"

fun contentLengthMatch :: "jsstring \<Rightarrow> jsstring option" where
  "contentLengthMatch [] = None"
| "contentLengthMatch (c # s) =
     (if map lowerAscii (take 16 (c # s)) = js ''content-length: '' \<and>
         takeWhile isDigit (drop 16 (c # s)) \<noteq> []
      then Some (takeWhile isDigit (drop 16 (c # s)))
      else contentLengthMatch s)"

text \<open>
  \<open>parseInt\<close> of a run of decimal digits. The source's number is a double, exact up to
  \<open>2^53\<close>; above that it is still larger than the length of any string, which is all
  \<open>processBuffer\<close> uses it for.
\<close>

definition parseInt :: "jsstring \<Rightarrow> nat" where
  "parseInt digits = foldl (\<lambda>n c. 10 * n + (unat c - 48)) 0 digits"

lemma indexOf_bound: "indexOf s pat = Some k \<Longrightarrow> k + length pat \<le> length s"
proof (induction s arbitrary: k)
  case Nil
  then show ?case by (simp split: if_splits)
next
  case (Cons c s)
  show ?case
  proof (cases "take (length pat) (c # s) = pat")
    case True
    then have "length (take (length pat) (c # s)) = length pat"
      by simp
    then have "length pat \<le> length (c # s)"
      by simp
    with True Cons.prems show ?thesis by simp
  next
    case False
    with Cons show ?thesis by auto
  qed
qed

text \<open>
  \<open>processBuffer\<close>: the \<open>while (true)\<close> loop, as a function from the buffer to the message
  texts it hands to \<open>JSON.parse\<close>, in order, and the buffer it leaves. (A text that
  \<open>JSON.parse\<close> rejects is logged and dropped by the \<open>catch\<close>; the loop goes on.)
\<close>

function processBuffer :: "jsstring \<Rightarrow> jsstring list \<times> jsstring" where
  "processBuffer buffer =
     (case indexOf buffer CRLFCRLF of
        None \<Rightarrow> ([], buffer)
      | Some headerEnd \<Rightarrow>
          (case contentLengthMatch (take headerEnd buffer) of
             None \<Rightarrow> processBuffer (drop (headerEnd + 4) buffer)
           | Some digits \<Rightarrow>
               (let contentLength = parseInt digits;
                    messageStart = headerEnd + 4;
                    messageEnd = messageStart + contentLength
                in if length buffer < messageEnd then ([], buffer)
                   else (case processBuffer (drop messageEnd buffer) of
                           (messages, rest) \<Rightarrow>
                             (take (messageEnd - messageStart) (drop messageStart buffer) # messages,
                              rest)))))"
  by pat_completeness auto
termination
proof (relation "measure length")
  show "wf (measure length)" by simp
next
  fix buffer :: jsstring and headerEnd
  assume "indexOf buffer CRLFCRLF = Some headerEnd"
  then have "headerEnd + 4 \<le> length buffer"
    using indexOf_bound [of buffer CRLFCRLF headerEnd] by (simp add: CRLFCRLF_def)
  then show "(drop (headerEnd + 4) buffer, buffer) \<in> measure length"
    by simp
next
  fix buffer :: jsstring and headerEnd digits contentLength messageStart messageEnd
  assume "indexOf buffer CRLFCRLF = Some headerEnd"
    and "messageStart = headerEnd + 4" and "messageEnd = messageStart + contentLength"
    and "\<not> length buffer < messageEnd"
  then show "(drop messageEnd buffer, buffer) \<in> measure length"
    by simp
qed

declare processBuffer.simps [simp del]


text \<open>The decimal digits of a number, as a template literal prints it.\<close>

function showNat :: "nat \<Rightarrow> jsstring" where
  "showNat n = (if n < 10 then [of_nat (48 + n)] else showNat (n div 10) @ [of_nat (48 + n mod 10)])"
  by pat_completeness auto
termination
  by (relation "measure id") auto

declare showNat.simps [simp del]

text \<open>
  The UTF-8 encoding of a string, as \<open>socket.write\<close> and \<open>Buffer.byteLength\<close> compute
  it: one to three bytes for a code unit, four for a surrogate pair, and the three bytes of
  U+FFFD for a lone surrogate.
\<close>

fun utf8Encode :: "jsstring \<Rightarrow> byte list" where
  "utf8Encode [] = []"
| "utf8Encode (c # s) =
     (let n = unat c in
      if n < 0x80 then of_nat n # utf8Encode s
      else if n < 0x800 then [of_nat (0xC0 + n div 64), of_nat (0x80 + n mod 64)] @ utf8Encode s
      else if 0xD800 \<le> n \<and> n \<le> 0xDBFF \<and> s \<noteq> [] \<and>
              0xDC00 \<le> unat (hd s) \<and> unat (hd s) \<le> 0xDFFF then
        (let cp = 0x10000 + (n - 0xD800) * 1024 + (unat (hd s) - 0xDC00)
         in [of_nat (0xF0 + cp div 262144), of_nat (0x80 + cp div 4096 mod 64),
             of_nat (0x80 + cp div 64 mod 64), of_nat (0x80 + cp mod 64)] @ utf8Encode (tl s))
      else if 0xD800 \<le> n \<and> n \<le> 0xDFFF then [0xEF, 0xBF, 0xBD] @ utf8Encode s
      else [of_nat (0xE0 + n div 4096), of_nat (0x80 + n div 64 mod 64), of_nat (0x80 + n mod 64)]
             @ utf8Encode s)"

definition byteLength :: "jsstring \<Rightarrow> nat" where
  "byteLength s = length (utf8Encode s)"

text \<open>
  \<open>data.toString()\<close>: the UTF-8 decoder over one chunk of bytes, with \<open>cp\<close> the code point
  being assembled, \<open>seen\<close> and \<open>needed\<close> its continuation bytes, and \<open>lower\<close>, \<open>upper\<close> the
  range allowed for the next one. A byte that cannot continue or start a sequence, and a
  sequence cut off by the end of the chunk, give U+FFFD.
\<close>

definition emit :: "nat \<Rightarrow> jsstring" where
  "emit cp =
     (if cp < 0x10000 then [of_nat cp]
      else [of_nat (0xD800 + (cp - 0x10000) div 1024), of_nat (0xDC00 + (cp - 0x10000) mod 1024)])"

function utf8Decode :: "nat \<Rightarrow> nat \<Rightarrow> nat \<Rightarrow> nat \<Rightarrow> nat \<Rightarrow> byte list \<Rightarrow> jsstring" where
  "utf8Decode cp seen needed lower upper [] = (if needed \<noteq> 0 then [0xFFFD] else [])"
| "utf8Decode cp seen needed lower upper (b # bs) =
     (let n = unat b in
      if needed = 0 then
        (if n \<le> 0x7F then of_nat n # utf8Decode 0 0 0 0x80 0xBF bs
         else if 0xC2 \<le> n \<and> n \<le> 0xDF then utf8Decode (n mod 32) 0 1 0x80 0xBF bs
         else if 0xE0 \<le> n \<and> n \<le> 0xEF then
           utf8Decode (n mod 16) 0 2 (if n = 0xE0 then 0xA0 else 0x80)
             (if n = 0xED then 0x9F else 0xBF) bs
         else if 0xF0 \<le> n \<and> n \<le> 0xF4 then
           utf8Decode (n mod 8) 0 3 (if n = 0xF0 then 0x90 else 0x80)
             (if n = 0xF4 then 0x8F else 0xBF) bs
         else 0xFFFD # utf8Decode 0 0 0 0x80 0xBF bs)
      else if n < lower \<or> upper < n then 0xFFFD # utf8Decode 0 0 0 0x80 0xBF (b # bs)
      else if Suc seen = needed then emit (cp * 64 + n mod 64) @ utf8Decode 0 0 0 0x80 0xBF bs
      else utf8Decode (cp * 64 + n mod 64) (Suc seen) needed 0x80 0xBF bs)"
  by pat_completeness auto
termination
  by (relation "measure (\<lambda>(cp, seen, needed, lower, upper, bs).
        2 * length bs + (if needed = 0 then 0 else 1))") auto

definition toString_utf8 :: "byte list \<Rightarrow> jsstring" where
  "toString_utf8 data = utf8Decode 0 0 0 0x80 0xBF data"

text \<open>
  \<open>sendRequest\<close>: \<open>content\<close> is the text \<open>JSON.stringify(request)\<close>; the header carries
  \<open>Buffer.byteLength(content)\<close>, and the message goes out as UTF-8.
\<close>

definition requestMessage :: "jsstring \<Rightarrow> jsstring" where
  "requestMessage content =
     js ''Content-Length: '' @ showNat (byteLength content) @ CRLFCRLF @ content"

definition socketWrite :: "jsstring \<Rightarrow> byte list" where
  "socketWrite msg = utf8Encode msg"

text \<open>The \<open>'data'\<close> handler of the constructor, and a sequence of chunks received in order.\<close>

definition onData :: "jsstring \<Rightarrow> byte list \<Rightarrow> jsstring list \<times> jsstring" where
  "onData buffer data = processBuffer (buffer @ toString_utf8 data)"

fun feed :: "jsstring \<Rightarrow> byte list list \<Rightarrow> jsstring list \<times> jsstring" where
  "feed buffer [] = ([], buffer)"
| "feed buffer (data # chunks) =
     (case onData buffer data of
        (messages, buffer') \<Rightarrow>
          (case feed buffer' chunks of
             (messages', buffer'') \<Rightarrow> (messages @ messages', buffer'')))"

section \<open>The endpoint namer: \<open>generatePipeName\<close>\<close>

















section \<open>A small workspace for concrete runs\<close>

text \<open>
  One engine with three open documents: an output channel (not file-backed), the sample
  file of the workspace (it names \<open>useMemo\<close> in a comment at column 3, declares
  \<open>greetUser\<close> at column 21, calls it at column 38 and uses \<open>useMemo\<close> at column 48),
  and a vendored declaration file outside every workspace folder. The symbol index answers the queries \<open>greetUser\<close> and
  \<open>greet\<close> with the one symbol \<open>greetUser\<close>, as a fuzzy index does.
\<close>

definition sampleUri :: uri where
  "sampleUri = \<lparr>scheme = js ''file'', toString = js ''file:///work/lsp-poc/test-sample.ts''\<rparr>"

definition vendorUri :: uri where
  "vendorUri = \<lparr>scheme = js ''file'', toString = js ''file:///opt/node_modules/react/index.d.ts''\<rparr>"

definition outputUri :: uri where
  "outputUri = \<lparr>scheme = js ''output'', toString = js ''output:tasks''\<rparr>"

definition at :: "nat \<Rightarrow> nat \<Rightarrow> position" where
  "at l c = \<lparr>line = l, character = c\<rparr>"

definition span :: "nat \<Rightarrow> nat \<Rightarrow> nat \<Rightarrow> range" where
  "span l c d = \<lparr>start = at l c, finish = at l d\<rparr>"

definition sampleText :: jsstring where
  "sampleText = js ''// useMemo: function greetUser(n) { } greetUser(useMemo);''"

definition greetUserSymbol :: symbolInformation where
  "greetUserSymbol =
     \<lparr>si_name = js ''greetUser'', si_kind = 11,
      si_location = \<lparr>loc_uri = sampleUri, loc_range = span 0 21 30\<rparr>\<rparr>"

text \<open>The engine's references to \<open>greetUser\<close>: the call is reported twice.\<close>

definition greetUserReferences :: "location list" where
  "greetUserReferences =
     [\<lparr>loc_uri = sampleUri, loc_range = span 0 38 47\<rparr>,
      \<lparr>loc_uri = sampleUri, loc_range = span 0 21 30\<rparr>,
      \<lparr>loc_uri = sampleUri, loc_range = span 0 38 47\<rparr>]"

definition greetUserLocation :: symbolLocation where
  "greetUserLocation = \<lparr>sl_uri = sampleUri, sl_position = at 0 21\<rparr>"

definition vendorSymbols :: "documentSymbol list" where
  "vendorSymbols =
     [DocumentSymbol (js ''React'') (span 0 0 40)
        [DocumentSymbol (js ''useState'') (span 0 17 25) []]]"

definition vendorDocument :: textDocument where
  "vendorDocument =
     \<lparr>doc_uri = vendorUri, getText = js ''namespace React { useState }'', positionAt = at 0\<rparr>"

definition sampleWorkspace :: vscode where
  "sampleWorkspace =
     \<lparr>executeWorkspaceSymbolProvider =
        (\<lambda>q. if q = js ''greetUser'' \<or> q = js ''greet'' then Fulfilled (Some [greetUserSymbol])
             else if q = js ''crash'' then Rejected (js ''engine failure'')
             else Fulfilled (Some [])),
      executeReferenceProvider =
        (\<lambda>u p. if u = sampleUri \<and> p = at 0 21 then
                  Fulfilled (Some greetUserReferences)
                else if u = vendorUri then Fulfilled (Some [])
                else Fulfilled None),
      executeDocumentSymbolProvider =
        (\<lambda>u. if u = sampleUri then
                Fulfilled (Some [DocumentSymbol (js ''Greeter'') (span 0 0 5)
                                   [DocumentSymbol (js ''greet'') (span 0 2 4) []]])
              else if u = vendorUri then Fulfilled (Some vendorSymbols)
              else Fulfilled None),
      executeHoverProvider =
        (\<lambda>u p. if u = sampleUri \<and> (p = at 0 21 \<or> p = at 0 38 \<or> p = at 0 48) then
                  Fulfilled (Some [Hover (js ''function greetUser(n: any): void'')])
                else Fulfilled (Some [])),
      textDocuments =
        [\<lparr>doc_uri = outputUri, getText = js ''useState greetUser n'', positionAt = at 0\<rparr>,
         \<lparr>doc_uri = sampleUri, getText = sampleText, positionAt = at 0\<rparr>,
         vendorDocument],
      getWorkspaceFolder =
        (\<lambda>u. if u = sampleUri then Some \<lparr>fsPath = js ''/work/lsp-poc''\<rparr> else None),
      workspaceFolders = Some [\<lparr>fsPath = js ''/work/lsp-poc''\<rparr>],
      SymbolKind = (\<lambda>k. if k = 11 then Some (js ''Function'') else None)\<rparr>"



text \<open>The message of the \<open>TypeError\<close> for the pattern of the HTTP handler, in the wording of V8.\<close>

definition cannotDestructure :: jsstring where
  "cannotDestructure =
     js ''Cannot destructure property '' @ [39] @ js ''symbolName'' @ [39] @ js '' of ''
       @ [39] @ js ''req.body'' @ [39] @ js '' as it is undefined.''"


section \<open>The pattern the resolvers build\<close>

text \<open>
  The escaped name compiles to the name's own characters, each literal: the expression is
  the word-boundary search for the literal name.
\<close>

lemma regexSpecial_b: "\<not> regexSpecial (of_char CHR ''b'')"
  by (simp add: regexSpecial_def js_simps backslash_def)

lemma regexSpecial_backslash: "regexSpecial backslash"
  by (simp add: regexSpecial_def)

lemma compile_escape:
  "compileRegExp (escapeRegExp nm @ rest) = map_option (\<lambda>ts. map Lit nm @ ts) (compileRegExp rest)"
proof (induction nm)
  case Nil
  show ?case by (simp add: escapeRegExp_def option.map_ident)
next
  case (Cons c nm)
  have step: "escapeRegExp (c # nm) = (if regexSpecial c then [backslash, c] else [c]) @ escapeRegExp nm"
    by (simp add: escapeRegExp_def)
  show ?case
  proof (cases "regexSpecial c")
    case True
    then have "c \<noteq> of_char CHR ''b''" using regexSpecial_b by auto
    with True Cons show ?thesis
      by (simp add: step option.map_comp comp_def)
  next
    case False
    then have nb: "c \<noteq> backslash" using regexSpecial_backslash by auto
    show ?thesis
    proof (cases "escapeRegExp nm @ rest")
      case Nil
      then have "escapeRegExp nm = []" and r: "rest = []"
        by simp_all
      then have "nm = []"
        by (cases nm) (auto simp: escapeRegExp_def split: if_splits)
      with False r show ?thesis by (simp add: escapeRegExp_def)
    next
      case (Cons d s)
      with False nb Cons.IH show ?thesis
        by (simp add: step option.map_comp comp_def)
    qed
  qed
qed

lemma compile_wordPattern:
  "compileRegExp (wordPattern nm) = Some (WordBoundary # map Lit nm @ [WordBoundary])"
proof -
  have last: "compileRegExp [backslash, of_char CHR ''b''] = Some [WordBoundary]"
    by simp
  have "compileRegExp (escapeRegExp nm @ [backslash, of_char CHR ''b'']) = Some (map Lit nm @ [WordBoundary])"
    by (simp only: compile_escape last option.map)
  then show ?thesis
    by (simp add: wordPattern_def)
qed

text \<open>
  The search in plain words: the name occurs at an index, with a word boundary before it
  and after it.
\<close>

definition occursAt :: "jsstring \<Rightarrow> jsstring \<Rightarrow> nat \<Rightarrow> bool" where
  "occursAt nm text i \<longleftrightarrow> take (length nm) (drop i text) = nm"

definition wordMatch :: "jsstring \<Rightarrow> jsstring \<Rightarrow> nat \<Rightarrow> bool" where
  "wordMatch nm text i \<longleftrightarrow>
     occursAt nm text i \<and> isBoundary text i \<and> isBoundary text (i + length nm)"

lemma matchAt_literal:
  "matchAt (map Lit nm @ ts) text i =
     (if occursAt nm text i then matchAt ts text (i + length nm) else None)"
proof (induction nm arbitrary: i)
  case Nil
  show ?case by (simp add: occursAt_def)
next
  case (Cons c nm)
  show ?case
  proof (cases "i < length text")
    case True
    then have "drop i text = text ! i # drop (Suc i) text"
      by (simp add: Cons_nth_drop_Suc)
    then show ?thesis using Cons.IH [of "Suc i"] True
      by (auto simp: occursAt_def)
  next
    case False
    then show ?thesis by (simp add: occursAt_def)
  qed
qed

lemma matchAt_word:
  "matchAt (WordBoundary # map Lit nm @ [WordBoundary]) text i =
     (if wordMatch nm text i then Some (i + length nm) else None)"
  by (simp add: matchAt_literal wordMatch_def)

lemma regexExec_word:
  "regexExec (WordBoundary # map Lit nm @ [WordBoundary]) text lastIndex =
     map_option (\<lambda>i. (i, i + length nm)) (List.find (wordMatch nm text) [lastIndex ..< Suc (length text)])"
proof -
  have pred: "(\<lambda>i. matchAt (WordBoundary # map Lit nm @ [WordBoundary]) text i \<noteq> None) = wordMatch nm text"
  proof
    fix i show "(matchAt (WordBoundary # map Lit nm @ [WordBoundary]) text i \<noteq> None) = wordMatch nm text i"
      by (simp only: matchAt_word) simp
  qed
  show ?thesis
  proof (cases "List.find (wordMatch nm text) [lastIndex ..< Suc (length text)]")
    case None
    then show ?thesis unfolding regexExec_def pred by simp
  next
    case (Some i)
    then have "wordMatch nm text i" by (auto simp: find_Some_iff)
    then have "matchAt (WordBoundary # map Lit nm @ [WordBoundary]) text i = Some (i + length nm)"
      by (simp only: matchAt_word if_True)
    with Some show ?thesis unfolding regexExec_def pred by simp
  qed
qed

section \<open>The symbol tree\<close>

text \<open>All symbols of a tree, nested children included: a symbol, then its children, then its later siblings.\<close>

fun preorder :: "documentSymbol list \<Rightarrow> documentSymbol list" where
  "preorder [] = []"
| "preorder (DocumentSymbol nm rg children # rest) =
     DocumentSymbol nm rg children # preorder children @ preorder rest"

lemma find_append:
  "List.find P (xs @ ys) = (case List.find P xs of None \<Rightarrow> List.find P ys | Some x \<Rightarrow> Some x)"
  by (induction xs) simp_all

lemma findSymbolInTree_preorder:
  "findSymbolInTree dss symbolName = List.find (\<lambda>s. ds_name s = symbolName) (preorder dss)"
  by (induction dss symbolName rule: findSymbolInTree.induct)
     (auto simp: find_append split: option.splits)

section \<open>The scan of the open documents, in the words of the specification\<close>

lemma find_Some_mem: "List.find P xs = Some x \<Longrightarrow> x \<in> set xs"
  by (induction xs) (auto split: if_splits)

text \<open>
  The successive matches of a global expression from \<open>lastIndex\<close> on: the leftmost
  match, then the leftmost match after its end, and so on. (For the empty name, which no
  handler passes on, only the first is listed.)
\<close>

function matchesFrom :: "jsstring \<Rightarrow> jsstring \<Rightarrow> nat \<Rightarrow> nat list" where
  "matchesFrom nm text lastIndex =
     (case List.find (wordMatch nm text) [lastIndex ..< Suc (length text)] of
        None \<Rightarrow> []
      | Some i \<Rightarrow> i # (if nm = [] then [] else matchesFrom nm text (i + length nm)))"
  by pat_completeness auto
termination
proof (relation "measure (\<lambda>(nm, text, lastIndex). Suc (length text) - lastIndex)")
  show "wf (measure (\<lambda>(nm, text, lastIndex). Suc (length text) - lastIndex))"
    by simp
next
  fix nm s :: jsstring and lastIndex i :: nat
  assume found: "List.find (wordMatch nm s) [lastIndex ..< Suc (length s)] = Some i"
    and nonempty: "nm \<noteq> []"
  from found have "i \<in> set [lastIndex ..< Suc (length s)]"
    by (rule find_Some_mem)
  then have "lastIndex \<le> i" "i \<le> length s"
    by (simp_all only: set_upt atLeastLessThan_iff less_Suc_eq_le)
  moreover from nonempty obtain c cs where "nm = c # cs"
    by (cases nm) auto
  ultimately show "((nm, s, i + length nm), (nm, s, lastIndex))
      \<in> measure (\<lambda>(nm, text, lastIndex). Suc (length text) - lastIndex)"
    by auto
qed

declare matchesFrom.simps [simp del]

text \<open>Asking for hover information at each match in turn, up to the first with some.\<close>

fun probe :: "vscode \<Rightarrow> textDocument \<Rightarrow> nat list \<Rightarrow> symbolLocation option promise" where
  "probe api document [] = Fulfilled None"
| "probe api document (i # rest) =
     (case executeHoverProvider api (doc_uri document) (positionAt document i) of
        Rejected msg \<Rightarrow> Rejected msg
      | Fulfilled hovers \<Rightarrow>
          if hoverPresent hovers then
            Fulfilled (Some \<lparr>sl_uri = doc_uri document, sl_position = positionAt document i\<rparr>)
          else probe api document rest)"

lemma hoverLoop_probe:
  "nm \<noteq> [] \<Longrightarrow>
     hoverLoop api document (WordBoundary # map Lit nm @ [WordBoundary]) lastIndex =
       Some (probe api document (matchesFrom nm (getText document) lastIndex))"
proof (induction nm "getText document" lastIndex rule: matchesFrom.induct)
  case (1 nm lastIndex)
  show ?case
  proof (cases "List.find (wordMatch nm (getText document)) [lastIndex ..< Suc (length (getText document))]")
    case None
    then show ?thesis
      by (subst hoverLoop.simps, subst matchesFrom.simps) (simp add: regexExec_word)
  next
    case (Some i)
    with 1 have IH: "hoverLoop api document (WordBoundary # map Lit nm @ [WordBoundary]) (i + length nm) =
       Some (probe api document (matchesFrom nm (getText document) (i + length nm)))"
      by simp
    from Some 1(2) show ?thesis
      by (subst hoverLoop.simps, subst matchesFrom.simps)
         (simp add: regexExec_word IH split: promise.splits)
  qed
qed


text \<open>The first document, in order, that yields a location; a rejection ends the scan.\<close>

fun scan :: "('d \<Rightarrow> 'r option promise) \<Rightarrow> 'd list \<Rightarrow> 'r option promise" where
  "scan f [] = Fulfilled None"
| "scan f (d # ds) =
     (case f d of
        Rejected msg \<Rightarrow> Rejected msg
      | Fulfilled (Some r) \<Rightarrow> Fulfilled (Some r)
      | Fulfilled None \<Rightarrow> scan f ds)"

text \<open>
  What one document yields: the start of the first symbol of its tree with exactly the
  name, and only when the tree has none, a match of the text search with hover
  information. The earlier version probes every match (\<open>inDocument1\<close>), the later
  version the first only (\<open>inDocument2\<close>).
\<close>

definition inTree :: "documentSymbol list option \<Rightarrow> jsstring \<Rightarrow> documentSymbol option" where
  "inTree documentSymbols nm =
     List.find (\<lambda>s. ds_name s = nm)
       (preorder (case documentSymbols of None \<Rightarrow> [] | Some dss \<Rightarrow> dss))"

definition inDocument1 :: "vscode \<Rightarrow> jsstring \<Rightarrow> textDocument \<Rightarrow> symbolLocation option promise" where
  "inDocument1 api nm document =
     (case executeDocumentSymbolProvider api (doc_uri document) of
        Rejected msg \<Rightarrow> Rejected msg
      | Fulfilled documentSymbols \<Rightarrow>
          (case inTree documentSymbols nm of
             Some found \<Rightarrow>
               Fulfilled (Some \<lparr>sl_uri = doc_uri document, sl_position = start (ds_range found)\<rparr>)
           | None \<Rightarrow> probe api document (matchesFrom nm (getText document) 0)))"

definition inDocument2 :: "vscode \<Rightarrow> jsstring \<Rightarrow> textDocument \<Rightarrow> symbolLocation option promise" where
  "inDocument2 api nm document =
     (case executeDocumentSymbolProvider api (doc_uri document) of
        Rejected msg \<Rightarrow> Rejected msg
      | Fulfilled documentSymbols \<Rightarrow>
          (case inTree documentSymbols nm of
             Some found \<Rightarrow>
               Fulfilled (Some \<lparr>sl_uri = doc_uri document, sl_position = start (ds_range found)\<rparr>)
           | None \<Rightarrow> probe api document (take 1 (matchesFrom nm (getText document) 0))))"

definition fileBacked :: "textDocument \<Rightarrow> bool" where
  "fileBacked document \<longleftrightarrow> scheme (doc_uri document) = js ''file''"

definition inWorkspace :: "vscode \<Rightarrow> textDocument \<Rightarrow> bool" where
  "inWorkspace api document \<longleftrightarrow> getWorkspaceFolder api (doc_uri document) \<noteq> None"

lemma take1_matchesFrom:
  "take (Suc 0) (matchesFrom nm s k) =
     (case List.find (wordMatch nm s) [k ..< Suc (length s)] of None \<Rightarrow> [] | Some i \<Rightarrow> [i])"
  by (subst matchesFrom.simps) (simp split: option.splits)

lemma loop2_step:
  assumes "scheme (doc_uri d) = js ''file''" "getWorkspaceFolder api (doc_uri d) \<noteq> None"
  shows "findSymbolLocation_loop api nm (d # docs) =
     (case inDocument2 api nm d of
        Rejected msg \<Rightarrow> Rejected msg
      | Fulfilled (Some r) \<Rightarrow> Fulfilled (Some r)
      | Fulfilled None \<Rightarrow> findSymbolLocation_loop api nm docs)"
proof -
  have tree: "findSymbolInTree (case ds of None \<Rightarrow> [] | Some dss \<Rightarrow> dss) nm = inTree ds nm" for ds
    by (simp add: inTree_def findSymbolInTree_preorder)
  from assms obtain folder where "getWorkspaceFolder api (doc_uri d) = Some folder"
    by auto
  with assms(1) show ?thesis
    by (simp add: inDocument2_def tree compile_wordPattern regexExec_word take1_matchesFrom
        del: upt_Suc split: promise.splits option.splits)
qed

lemma loop2_scan:
  "findSymbolLocation_loop api nm docs =
     scan (inDocument2 api nm) (filter (\<lambda>d. fileBacked d \<and> inWorkspace api d) docs)"
proof (induction docs)
  case Nil
  show ?case by simp
next
  case (Cons d docs)
  show ?case
  proof (cases "fileBacked d \<and> inWorkspace api d")
    case False
    with Cons show ?thesis
      by (auto simp: fileBacked_def inWorkspace_def)
  next
    case True
    then have guards: "scheme (doc_uri d) = js ''file''" "getWorkspaceFolder api (doc_uri d) \<noteq> None"
      by (simp_all add: fileBacked_def inWorkspace_def)
    show ?thesis
      using True Cons
      by (simp only: loop2_step [OF guards] filter.simps if_True scan.simps simp_thms)
  qed
qed

lemma loop1_step:
  assumes "scheme (doc_uri d) = js ''file''" "nm \<noteq> []"
  shows "findSymbolInDocuments_loop api nm (d # docs) =
     (case inDocument1 api nm d of
        Rejected msg \<Rightarrow> Some (Rejected msg)
      | Fulfilled (Some r) \<Rightarrow> Some (Fulfilled (Some r))
      | Fulfilled None \<Rightarrow> findSymbolInDocuments_loop api nm docs)"
proof -
  have tree: "(case ds of None \<Rightarrow> None | Some dss \<Rightarrow> findSymbolInTree dss nm) = inTree ds nm" for ds
    by (simp add: inTree_def findSymbolInTree_preorder split: option.splits)
  show ?thesis
    using assms
    by (simp add: inDocument1_def tree compile_wordPattern hoverLoop_probe
        del: upt_Suc split: promise.splits option.splits)
qed

lemma loop1_scan:
  assumes "nm \<noteq> []"
  shows "findSymbolInDocuments_loop api nm docs =
     Some (scan (inDocument1 api nm) (filter fileBacked docs))"
proof (induction docs)
  case Nil
  show ?case by simp
next
  case (Cons d docs)
  show ?case
  proof (cases "fileBacked d")
    case False
    with Cons show ?thesis
      by (auto simp: fileBacked_def)
  next
    case True
    then have guards: "scheme (doc_uri d) = js ''file''"
      by (simp_all add: fileBacked_def)
    show ?thesis
      using True Cons
      by (simp only: loop1_step [OF guards assms] filter.simps if_True scan.simps simp_thms)
         (simp split: promise.splits option.splits)
  qed
qed

section \<open>The index stage of the resolver\<close>




section \<open>The fallback scan of the resolver\<close>

text \<open>
  Claim C4, as the code has it. When the index gives no exact match, the later resolver
  \<open>findSymbolLocation\<close> scans the open documents in order, skipping the documents that are
  not file-backed and those outside every workspace folder; the earlier resolver
  \<open>findSymbolInDocuments\<close> (called for a non-empty name) skips only the documents that are
  not file-backed, and it returns. In each scanned document the symbol tree is searched
  first, nested children included, for a symbol of exactly the name, whose range start is
  the answer; only when the tree has none comes the word-boundary search for the literal
  name in the text: the earlier version returns the first match at which hover information
  is present, the later version looks at the first match only. The answer is the first
  document's that yields one; with none, it is \<open>null\<close> (not found).
\<close>

theorem fallback_scans_the_open_documents:
  "(executeWorkspaceSymbolProvider api nm = Fulfilled (Some ss) \<and>
      (\<forall>x\<in>set ss. si_name x \<noteq> nm) \<longrightarrow>
      findSymbolLocation api nm =
        scan (inDocument2 api nm)
          (filter (\<lambda>d. fileBacked d \<and> inWorkspace api d) (textDocuments api)))
   \<and> (nm \<noteq> [] \<longrightarrow>
      findSymbolInDocuments api nm =
        Some (scan (inDocument1 api nm) (filter fileBacked (textDocuments api))))
   \<and> (scan f docs = Fulfilled None \<longleftrightarrow> (\<forall>d\<in>set docs. f d = Fulfilled None))"
proof (intro conjI impI)
  assume a: "executeWorkspaceSymbolProvider api nm = Fulfilled (Some ss) \<and>
      (\<forall>x\<in>set ss. si_name x \<noteq> nm)"
  then have "List.find (\<lambda>s. si_name s = nm) ss = None"
    by (simp add: find_None_iff)
  with a show "findSymbolLocation api nm =
        scan (inDocument2 api nm)
          (filter (\<lambda>d. fileBacked d \<and> inWorkspace api d) (textDocuments api))"
    by (simp add: findSymbolLocation_def loop2_scan)
next
  assume "nm \<noteq> []"
  then show "findSymbolInDocuments api nm =
        Some (scan (inDocument1 api nm) (filter fileBacked (textDocuments api)))"
    by (simp add: findSymbolInDocuments_def loop1_scan)
next
  show "scan f docs = Fulfilled None \<longleftrightarrow> (\<forall>d\<in>set docs. f d = Fulfilled None)"
    by (induction docs) (auto split: promise.splits option.splits)
qed

theorem fallback_scans_the_open_documents_witness:
  "scan (inDocument2 sampleWorkspace (js ''greet''))
      (filter (\<lambda>d. fileBacked d \<and> inWorkspace sampleWorkspace d) (textDocuments sampleWorkspace)) =
     Fulfilled (Some \<lparr>sl_uri = sampleUri, sl_position = at 0 2\<rparr>)
   \<and> scan (inDocument1 sampleWorkspace (js ''useMemo''))
      (filter fileBacked (textDocuments sampleWorkspace)) =
     Fulfilled (Some \<lparr>sl_uri = sampleUri, sl_position = at 0 48\<rparr>)
   \<and> scan (inDocument2 sampleWorkspace (js ''n'')) [vendorDocument] = Fulfilled None"
proof -
  have index: "executeWorkspaceSymbolProvider sampleWorkspace (js ''greet'') =
      Fulfilled (Some [greetUserSymbol]) \<and>
      (\<forall>x\<in>set [greetUserSymbol]. si_name x \<noteq> js ''greet'')"
    by (simp add: sampleWorkspace_def greetUserSymbol_def js_simps)
  have nonempty: "js ''useMemo'' \<noteq> []"
    by (simp add: js_simps)
  have later: "findSymbolLocation sampleWorkspace (js ''greet'') =
      Fulfilled (Some \<lparr>sl_uri = sampleUri, sl_position = at 0 2\<rparr>)"
    by code_simp
  have earlier: "findSymbolInDocuments sampleWorkspace (js ''useMemo'') =
      Some (Fulfilled (Some \<lparr>sl_uri = sampleUri, sl_position = at 0 48\<rparr>))"
    by code_simp
  have no_match: "inDocument2 sampleWorkspace (js ''n'') vendorDocument = Fulfilled None"
    by code_simp
  note later_instance = fallback_scans_the_open_documents
      [of sampleWorkspace "js ''greet''" "[greetUserSymbol]"
          "inDocument2 sampleWorkspace (js ''n'')" "[vendorDocument]"]
  note earlier_instance = fallback_scans_the_open_documents
      [of sampleWorkspace "js ''useMemo''" "[]"
          "inDocument2 sampleWorkspace (js ''n'')" "[vendorDocument]"]
  from later_instance index
  have a: "findSymbolLocation sampleWorkspace (js ''greet'') =
      scan (inDocument2 sampleWorkspace (js ''greet''))
        (filter (\<lambda>d. fileBacked d \<and> inWorkspace sampleWorkspace d) (textDocuments sampleWorkspace))"
    by blast
  from earlier_instance nonempty
  have b: "findSymbolInDocuments sampleWorkspace (js ''useMemo'') =
      Some (scan (inDocument1 sampleWorkspace (js ''useMemo''))
        (filter fileBacked (textDocuments sampleWorkspace)))"
    by blast
  from later_instance
  have "scan (inDocument2 sampleWorkspace (js ''n'')) [vendorDocument] = Fulfilled None \<longleftrightarrow>
      (\<forall>d\<in>set [vendorDocument]. inDocument2 sampleWorkspace (js ''n'') d = Fulfilled None)"
    by (elim conjE)
  with no_match
  have c: "scan (inDocument2 sampleWorkspace (js ''n'')) [vendorDocument] = Fulfilled None"
    by simp
  from a b c later earlier show ?thesis
    by simp
qed

text \<open>
  The claim as stated fails on the later resolver. The vendored document is open and
  file-backed and its symbol tree holds \<open>useState\<close>, yet \<open>findSymbolLocation\<close> reports
  nothing, because the document lies outside every workspace folder; and in the sample file
  the first text match of \<open>useMemo\<close> (column 3, a comment) has no hover information while
  the second (column 48) has, yet \<open>findSymbolLocation\<close> reports nothing, because it probes
  the first match only. The earlier resolver finds both.
\<close>

theorem later_resolver_skips_more:
  "executeWorkspaceSymbolProvider sampleWorkspace (js ''useState'') = Fulfilled (Some [])
   \<and> vendorDocument \<in> set (textDocuments sampleWorkspace)
   \<and> scheme (doc_uri vendorDocument) = js ''file''
   \<and> executeDocumentSymbolProvider sampleWorkspace (doc_uri vendorDocument) =
       Fulfilled (Some vendorSymbols)
   \<and> findSymbolInTree vendorSymbols (js ''useState'') =
       Some (DocumentSymbol (js ''useState'') (span 0 17 25) [])
   \<and> findSymbolLocation sampleWorkspace (js ''useState'') = Fulfilled None
   \<and> findSymbolInDocuments sampleWorkspace (js ''useState'') =
       Some (Fulfilled (Some \<lparr>sl_uri = vendorUri, sl_position = at 0 17\<rparr>))
   \<and> matchesFrom (js ''useMemo'') sampleText 0 = [3, 48]
   \<and> executeHoverProvider sampleWorkspace sampleUri (at 0 3) = Fulfilled (Some [])
   \<and> hoverPresent (case executeHoverProvider sampleWorkspace sampleUri (at 0 48) of
                     Fulfilled hovers \<Rightarrow> hovers | Rejected msg \<Rightarrow> None)
   \<and> findSymbolLocation sampleWorkspace (js ''useMemo'') = Fulfilled None
   \<and> findSymbolInDocuments sampleWorkspace (js ''useMemo'') =
       Some (Fulfilled (Some \<lparr>sl_uri = sampleUri, sl_position = at 0 48\<rparr>))"
proof -
  have opened: "vendorDocument \<in> set (textDocuments sampleWorkspace)"
    by (simp add: sampleWorkspace_def)
  have rest: "executeWorkspaceSymbolProvider sampleWorkspace (js ''useState'') = Fulfilled (Some [])
   \<and> scheme (doc_uri vendorDocument) = js ''file''
   \<and> executeDocumentSymbolProvider sampleWorkspace (doc_uri vendorDocument) =
       Fulfilled (Some vendorSymbols)
   \<and> findSymbolInTree vendorSymbols (js ''useState'') =
       Some (DocumentSymbol (js ''useState'') (span 0 17 25) [])
   \<and> findSymbolLocation sampleWorkspace (js ''useState'') = Fulfilled None
   \<and> findSymbolInDocuments sampleWorkspace (js ''useState'') =
       Some (Fulfilled (Some \<lparr>sl_uri = vendorUri, sl_position = at 0 17\<rparr>))
   \<and> matchesFrom (js ''useMemo'') sampleText 0 = [3, 48]
   \<and> executeHoverProvider sampleWorkspace sampleUri (at 0 3) = Fulfilled (Some [])
   \<and> hoverPresent (case executeHoverProvider sampleWorkspace sampleUri (at 0 48) of
                     Fulfilled hovers \<Rightarrow> hovers | Rejected msg \<Rightarrow> None)
   \<and> findSymbolLocation sampleWorkspace (js ''useMemo'') = Fulfilled None
   \<and> findSymbolInDocuments sampleWorkspace (js ''useMemo'') =
       Some (Fulfilled (Some \<lparr>sl_uri = sampleUri, sl_position = at 0 48\<rparr>))"
    by code_simp
  from opened rest show ?thesis
    by simp
qed

section \<open>Validation of the request\<close>



text \<open>
  Where no body was parsed and \<open>req.body\<close> is \<open>undefined\<close>, the HTTP handler does not reach
  the test of \<open>symbolName\<close>: the pattern throws, and the \<open>catch\<close> answers with status 500.
\<close>

lemma request_without_body_is_answered_500:
  "postFindReferences typeError api Undefined =
     \<lparr>status = 500, body = ErrorMessage (js ''Failed to find references'') typeError\<rparr>"
  by (simp add: postFindReferences_def failed500_def)

section \<open>A name that resolves to no symbol\<close>

text \<open>
  Claim C7. For a non-empty \<open>symbolName\<close> that resolves to no symbol, the HTTP handler
  answers 404 with \<open>error\<close>, \<open>symbolName\<close> and \<open>message\<close> (a body with no \<open>references\<close>
  field), and the pipe handler rejects with the not-found message, which the JSON-RPC
  connection reports as an error. Either way the handler returns: the outcome is a value.
\<close>

theorem unresolved_symbol_is_not_found:
  "nm \<noteq> [] \<Longrightarrow>
     ((executeWorkspaceSymbolProvider api nm = Fulfilled None \<or>
       executeWorkspaceSymbolProvider api nm = Fulfilled (Some [])) \<longrightarrow>
        postFindReferences typeError api (Body (Some nm)) =
          \<lparr>status = 404,
           body = ErrorNotFound (js ''Symbol not found'') nm
                    (js ''No symbol named '' @ [dquote] @ nm @ [dquote]
                       @ js '' found in the workspace'')\<rparr>)
     \<and> (findSymbolLocation api nm = Fulfilled None \<longrightarrow>
          handleFindReferences2 api (Some nm) =
            Rejected (js ''No symbol named '' @ [dquote] @ nm @ [dquote]
                        @ js '' found in the workspace''))"
  by (auto simp: postFindReferences_def handleFindReferences2_def notFound404_def noSymbol2_def)

theorem unresolved_symbol_is_not_found_witness:
  "postFindReferences cannotDestructure sampleWorkspace (Body (Some (js ''NoSuchSymbolXYZ''))) =
          \<lparr>status = 404,
           body = ErrorNotFound (js ''Symbol not found'') (js ''NoSuchSymbolXYZ'')
                    (js ''No symbol named '' @ [dquote] @ js ''NoSuchSymbolXYZ'' @ [dquote]
                       @ js '' found in the workspace'')\<rparr>
     \<and> handleFindReferences2 sampleWorkspace (Some (js ''NoSuchSymbolXYZ'')) =
            Rejected (js ''No symbol named '' @ [dquote] @ js ''NoSuchSymbolXYZ'' @ [dquote]
                        @ js '' found in the workspace'')"
proof -
  have nonempty: "js ''NoSuchSymbolXYZ'' \<noteq> []"
    by (simp add: js_simps)
  have index: "executeWorkspaceSymbolProvider sampleWorkspace (js ''NoSuchSymbolXYZ'') = Fulfilled (Some [])"
    by (simp add: sampleWorkspace_def js_simps)
  have resolver: "findSymbolLocation sampleWorkspace (js ''NoSuchSymbolXYZ'') = Fulfilled None"
    by code_simp
  show ?thesis
    using unresolved_symbol_is_not_found [OF nonempty, of sampleWorkspace] index resolver
    by simp
qed

section \<open>The references of a resolved symbol\<close>

text \<open>What the conversion keeps of a reference: the text of its \<open>uri\<close>, and its range whole.\<close>

lemma referenceData_content:
  "rr_uri (referenceData loc) = toString (loc_uri loc) \<and> rr_range (referenceData loc) = loc_range loc"
  by (simp add: referenceData_def)

lemma references_content:
  "map rr_uri (map referenceData rs) = map (\<lambda>loc. toString (loc_uri loc)) rs
   \<and> map rr_range (map referenceData rs) = map loc_range rs"
  by (simp add: referenceData_content)

text \<open>
  Claim C8. Once a symbol is resolved, every handler answers with a successful result whose
  \<open>references\<close> are the engine's references, one for one in the engine's order and with
  its duplicates, each with the text of its \<open>uri\<close> and with its range unchanged: the empty
  list when the engine reports none (an empty list or no list at all), never an error.
\<close>

theorem references_are_passed_through:
  "(nm \<noteq> [] \<and> executeWorkspaceSymbolProvider api nm = Fulfilled (Some (symb # others)) \<and>
      executeReferenceProvider api (loc_uri (si_location symb))
        (start (loc_range (si_location symb))) = Fulfilled refs \<longrightarrow>
      (\<exists>r. postFindReferences typeError api (Body (Some nm)) = \<lparr>status = 200, body = Result r\<rparr> \<and>
           references r = map referenceData (case refs of None \<Rightarrow> [] | Some rs \<Rightarrow> rs) \<and>
           map rr_uri (references r) =
             map (\<lambda>loc. toString (loc_uri loc)) (case refs of None \<Rightarrow> [] | Some rs \<Rightarrow> rs) \<and>
           map rr_range (references r) = map loc_range (case refs of None \<Rightarrow> [] | Some rs \<Rightarrow> rs)))
   \<and> (nm \<noteq> [] \<and> findSymbolLocation api nm = Fulfilled (Some loc) \<and>
      executeReferenceProvider api (sl_uri loc) (sl_position loc) = Fulfilled refs \<longrightarrow>
      (\<exists>r. handleFindReferences2 api (Some nm) = Fulfilled r \<and>
           references r = map referenceData (case refs of None \<Rightarrow> [] | Some rs \<Rightarrow> rs) \<and>
           map rr_uri (references r) =
             map (\<lambda>loc. toString (loc_uri loc)) (case refs of None \<Rightarrow> [] | Some rs \<Rightarrow> rs) \<and>
           map rr_range (references r) = map loc_range (case refs of None \<Rightarrow> [] | Some rs \<Rightarrow> rs)))
   \<and> (nm \<noteq> [] \<and> executeWorkspaceSymbolProvider api nm = Fulfilled symbols \<and>
      (workspaceStage1 symbols nm = Some loc \<or>
       workspaceStage1 symbols nm = None \<and>
       findSymbolInDocuments api nm = Some (Fulfilled (Some loc))) \<and>
      executeReferenceProvider api (sl_uri loc) (sl_position loc) = Fulfilled refs \<longrightarrow>
      (\<exists>r. handleFindReferences1 api (Some nm) = Some (Fulfilled r) \<and>
           references r = map referenceData (case refs of None \<Rightarrow> [] | Some rs \<Rightarrow> rs) \<and>
           map rr_uri (references r) =
             map (\<lambda>loc. toString (loc_uri loc)) (case refs of None \<Rightarrow> [] | Some rs \<Rightarrow> rs) \<and>
           map rr_range (references r) = map loc_range (case refs of None \<Rightarrow> [] | Some rs \<Rightarrow> rs)))"
proof (intro conjI impI)
  let ?rs = "case refs of None \<Rightarrow> [] | Some rs \<Rightarrow> rs"
  assume "nm \<noteq> [] \<and> executeWorkspaceSymbolProvider api nm = Fulfilled (Some (symb # others)) \<and>
      executeReferenceProvider api (loc_uri (si_location symb))
        (start (loc_range (si_location symb))) = Fulfilled refs"
  then have "\<exists>r. postFindReferences typeError api (Body (Some nm)) = \<lparr>status = 200, body = Result r\<rparr> \<and>
           references r = map referenceData ?rs"
    by (auto simp: postFindReferences_def noReferences200_def split: option.splits list.splits)
  then obtain r where "postFindReferences typeError api (Body (Some nm)) = \<lparr>status = 200, body = Result r\<rparr>"
    and "references r = map referenceData ?rs"
    by blast
  then show "\<exists>r. postFindReferences typeError api (Body (Some nm)) = \<lparr>status = 200, body = Result r\<rparr> \<and>
           references r = map referenceData ?rs \<and>
           map rr_uri (references r) = map (\<lambda>loc. toString (loc_uri loc)) ?rs \<and>
           map rr_range (references r) = map loc_range ?rs"
    using references_content [of ?rs] by (intro exI [of _ r]) simp
next
  let ?rs = "case refs of None \<Rightarrow> [] | Some rs \<Rightarrow> rs"
  assume "nm \<noteq> [] \<and> findSymbolLocation api nm = Fulfilled (Some loc) \<and>
      executeReferenceProvider api (sl_uri loc) (sl_position loc) = Fulfilled refs"
  then have "\<exists>r. handleFindReferences2 api (Some nm) = Fulfilled r \<and>
           references r = map referenceData ?rs"
    by (auto simp: handleFindReferences2_def split: option.splits)
  then obtain r where "handleFindReferences2 api (Some nm) = Fulfilled r"
    and "references r = map referenceData ?rs"
    by blast
  then show "\<exists>r. handleFindReferences2 api (Some nm) = Fulfilled r \<and>
           references r = map referenceData ?rs \<and>
           map rr_uri (references r) = map (\<lambda>loc. toString (loc_uri loc)) ?rs \<and>
           map rr_range (references r) = map loc_range ?rs"
    using references_content [of ?rs] by (intro exI [of _ r]) simp
next
  let ?rs = "case refs of None \<Rightarrow> [] | Some rs \<Rightarrow> rs"
  assume a: "nm \<noteq> [] \<and> executeWorkspaceSymbolProvider api nm = Fulfilled symbols \<and>
      (workspaceStage1 symbols nm = Some loc \<or>
       workspaceStage1 symbols nm = None \<and>
       findSymbolInDocuments api nm = Some (Fulfilled (Some loc))) \<and>
      executeReferenceProvider api (sl_uri loc) (sl_position loc) = Fulfilled refs"
  then have handler: "handleFindReferences1 api (Some nm) = Some (references1 api nm loc)"
    by (auto simp: handleFindReferences1_def)
  from a have "\<exists>r. references1 api nm loc = Fulfilled r \<and> references r = map referenceData ?rs"
    by (auto simp: references1_def split: option.splits list.splits)
  then obtain r where "references1 api nm loc = Fulfilled r"
    and "references r = map referenceData ?rs"
    by blast
  with handler
  show "\<exists>r. handleFindReferences1 api (Some nm) = Some (Fulfilled r) \<and>
           references r = map referenceData ?rs \<and>
           map rr_uri (references r) = map (\<lambda>loc. toString (loc_uri loc)) ?rs \<and>
           map rr_range (references r) = map loc_range ?rs"
    using references_content [of ?rs] by (intro exI [of _ r]) simp
qed

theorem references_are_passed_through_witness:
  "(\<exists>r. postFindReferences cannotDestructure sampleWorkspace (Body (Some (js ''greetUser''))) =
          \<lparr>status = 200, body = Result r\<rparr> \<and>
        references r =
          [\<lparr>rr_uri = js ''file:///work/lsp-poc/test-sample.ts'', rr_range = span 0 38 47\<rparr>,
           \<lparr>rr_uri = js ''file:///work/lsp-poc/test-sample.ts'', rr_range = span 0 21 30\<rparr>,
           \<lparr>rr_uri = js ''file:///work/lsp-poc/test-sample.ts'', rr_range = span 0 38 47\<rparr>])
   \<and> (\<exists>r. handleFindReferences2 sampleWorkspace (Some (js ''greetUser'')) = Fulfilled r \<and>
        references r =
          [\<lparr>rr_uri = js ''file:///work/lsp-poc/test-sample.ts'', rr_range = span 0 38 47\<rparr>,
           \<lparr>rr_uri = js ''file:///work/lsp-poc/test-sample.ts'', rr_range = span 0 21 30\<rparr>,
           \<lparr>rr_uri = js ''file:///work/lsp-poc/test-sample.ts'', rr_range = span 0 38 47\<rparr>])
   \<and> (\<exists>r. handleFindReferences1 sampleWorkspace (Some (js ''greetUser'')) = Some (Fulfilled r) \<and>
        references r =
          [\<lparr>rr_uri = js ''file:///work/lsp-poc/test-sample.ts'', rr_range = span 0 38 47\<rparr>,
           \<lparr>rr_uri = js ''file:///work/lsp-poc/test-sample.ts'', rr_range = span 0 21 30\<rparr>,
           \<lparr>rr_uri = js ''file:///work/lsp-poc/test-sample.ts'', rr_range = span 0 38 47\<rparr>])
   \<and> (\<exists>r. handleFindReferences2 sampleWorkspace (Some (js ''greet'')) = Fulfilled r \<and>
        references r = [])"
proof -
  have nonempty: "js ''greetUser'' \<noteq> []" "js ''greet'' \<noteq> []"
    by (simp_all add: js_simps)
  have index: "executeWorkspaceSymbolProvider sampleWorkspace (js ''greetUser'') =
      Fulfilled (Some (greetUserSymbol # []))"
    by (simp add: sampleWorkspace_def)
  have refs: "executeReferenceProvider sampleWorkspace (loc_uri (si_location greetUserSymbol))
      (start (loc_range (si_location greetUserSymbol))) = Fulfilled (Some greetUserReferences)"
    by (simp add: sampleWorkspace_def greetUserSymbol_def span_def)
  have refs': "executeReferenceProvider sampleWorkspace (sl_uri greetUserLocation)
      (sl_position greetUserLocation) = Fulfilled (Some greetUserReferences)"
    by (simp add: sampleWorkspace_def greetUserLocation_def)
  have located: "findSymbolLocation sampleWorkspace (js ''greetUser'') =
      Fulfilled (Some greetUserLocation)"
    by code_simp
  have stage1: "workspaceStage1 (Some (greetUserSymbol # [])) (js ''greetUser'') =
      Some greetUserLocation"
    by code_simp
  have located': "findSymbolLocation sampleWorkspace (js ''greet'') =
      Fulfilled (Some \<lparr>sl_uri = sampleUri, sl_position = at 0 2\<rparr>)"
    by code_simp
  have norefs: "executeReferenceProvider sampleWorkspace
      (sl_uri \<lparr>sl_uri = sampleUri, sl_position = at 0 2\<rparr>)
      (sl_position \<lparr>sl_uri = sampleUri, sl_position = at 0 2\<rparr>) = Fulfilled None"
    by code_simp
  have converted: "map referenceData greetUserReferences =
      [\<lparr>rr_uri = js ''file:///work/lsp-poc/test-sample.ts'', rr_range = span 0 38 47\<rparr>,
       \<lparr>rr_uri = js ''file:///work/lsp-poc/test-sample.ts'', rr_range = span 0 21 30\<rparr>,
       \<lparr>rr_uri = js ''file:///work/lsp-poc/test-sample.ts'', rr_range = span 0 38 47\<rparr>]"
    by (simp add: greetUserReferences_def referenceData_def sampleUri_def)
  have "(\<exists>r. postFindReferences cannotDestructure sampleWorkspace (Body (Some (js ''greetUser''))) =
          \<lparr>status = 200, body = Result r\<rparr> \<and>
        references r = map referenceData greetUserReferences)
   \<and> (\<exists>r. handleFindReferences2 sampleWorkspace (Some (js ''greetUser'')) = Fulfilled r \<and>
        references r = map referenceData greetUserReferences)
   \<and> (\<exists>r. handleFindReferences1 sampleWorkspace (Some (js ''greetUser'')) = Some (Fulfilled r) \<and>
        references r = map referenceData greetUserReferences)
   \<and> (\<exists>r. handleFindReferences2 sampleWorkspace (Some (js ''greet'')) = Fulfilled r \<and>
        references r = [])"
    using references_are_passed_through
      [of "js ''greetUser''" sampleWorkspace greetUserSymbol "[]" "Some greetUserReferences"
          cannotDestructure greetUserLocation "Some (greetUserSymbol # [])"]
      references_are_passed_through
      [of "js ''greet''" sampleWorkspace greetUserSymbol "[]" None
          cannotDestructure "\<lparr>sl_uri = sampleUri, sl_position = at 0 2\<rparr>" None]
      nonempty index refs refs' located stage1 located' norefs
    by auto
  then show ?thesis
    by (simp only: converted)
qed

section \<open>The count of references\<close>

text \<open>
  Claim C10. Every successful result of the pipe handler \<open>handleFindReferences\<close> (the later
  version, lines 419 to 457 of \<open>test-sample.ts\<close>) carries \<open>totalReferences\<close>, equal to the
  number of elements of \<open>references\<close>; with no references it is 0.
\<close>

theorem totalReferences_counts_references:
  "handleFindReferences2 api symbolName = Fulfilled r \<Longrightarrow>
     totalReferences r = Some (length (references r))"
  by (auto simp: handleFindReferences2_def split: option.splits if_splits promise.splits)

theorem totalReferences_counts_references_witness:
  "handleFindReferences2 sampleWorkspace (Some (js ''greet'')) =
     Fulfilled \<lparr>symbol = \<lparr>ps_name = js ''greet'', ps_uri = toString sampleUri,
                            ps_position = at 0 2\<rparr>,
                references = [], message = None, totalReferences = Some 0\<rparr>
   \<and> totalReferences \<lparr>symbol = \<lparr>ps_name = js ''greet'', ps_uri = toString sampleUri,
                                   ps_position = at 0 2\<rparr>,
                       references = [], message = None, totalReferences = Some 0\<rparr> =
       Some (length (references \<lparr>symbol = \<lparr>ps_name = js ''greet'', ps_uri = toString sampleUri,
                                   ps_position = at 0 2\<rparr>,
                       references = [], message = None, totalReferences = Some (0::nat)\<rparr>))"
proof -
  have run: "handleFindReferences2 sampleWorkspace (Some (js ''greet'')) =
     Fulfilled \<lparr>symbol = \<lparr>ps_name = js ''greet'', ps_uri = toString sampleUri,
                            ps_position = at 0 2\<rparr>,
                references = [], message = None, totalReferences = Some 0\<rparr>"
    by code_simp
  show ?thesis
    using totalReferences_counts_references [OF run] run by simp
qed

section \<open>The routes of the HTTP server\<close>

text \<open>
  Claim C5. \<open>startServer\<close> registers \<open>GET /api/health\<close> and \<open>POST /api/findReferences\<close>
  only: a \<open>POST\<close> to \<open>/api/textDocument/references\<close> reaches no handler, and with a body
  that the parser accepts it is answered with 404.
\<close>

theorem textDocument_references_route_is_not_registered:
  "route POST ''/api/textDocument/references'' = None
   \<and> route POST ''/api/findReferences'' = Some FindReferences
   \<and> startServer False POST ''/api/textDocument/references'' = NoRoute404"
  by code_simp

text \<open>The routes as Express matches them, and the answer of the body parser.\<close>

lemma routes_as_matched:
  "route POST ''/API/FindReferences/'' = Some FindReferences
   \<and> route GET ''/api/health'' = Some Health
   \<and> route GET ''/api/findReferences'' = None
   \<and> route POST ''/api/findReferences/x'' = None"
  by code_simp

lemma parser_error_is_answered_400: "startServer True m path = ParserError400"
  by (simp add: startServer_def)

section \<open>Facts about the endpoint namer\<close>













section \<open>Facts about the framer\<close>

text \<open>The decimal digits of a number read back as the number.\<close>

lemma unat_digit: "k < 10 \<Longrightarrow> unat (of_nat (48 + k) :: codeunit) = 48 + k"
  using unat_of_nat [of "48 + k", where ?'a = 16] by simp

lemma isDigit_digit: "k < 10 \<Longrightarrow> isDigit (of_nat (48 + k))"
proof -
  assume k: "k < 10"
  have "(48 :: codeunit) \<le> of_nat (48 + k) \<longleftrightarrow> unat (48 :: codeunit) \<le> unat (of_nat (48 + k) :: codeunit)"
    by (rule word_le_nat_alt)
  moreover have "of_nat (48 + k) \<le> (57 :: codeunit) \<longleftrightarrow> unat (of_nat (48 + k) :: codeunit) \<le> unat (57 :: codeunit)"
    by (rule word_le_nat_alt)
  ultimately show ?thesis
    using k unat_digit [OF k] by (simp add: isDigit_def)
qed

lemma showNat_digits: "list_all isDigit (showNat n)"
proof (induction n rule: showNat.induct)
  case (1 n)
  show ?case
  proof (cases "n < 10")
    case True
    then show ?thesis
      using isDigit_digit [of n] by (subst showNat.simps) simp
  next
    case False
    with 1 have "list_all isDigit (showNat (n div 10))" by simp
    moreover have "isDigit (of_nat (48 + n mod 10))"
      by (rule isDigit_digit) simp
    ultimately show ?thesis
      using False by (subst showNat.simps) simp
  qed
qed

lemma showNat_nonempty: "showNat n \<noteq> []"
  by (subst showNat.simps) simp

lemma parseInt_snoc: "parseInt (ds @ [d]) = 10 * parseInt ds + (unat d - 48)"
  by (simp add: parseInt_def)

lemma parseInt_showNat: "parseInt (showNat n) = n"
proof (induction n rule: showNat.induct)
  case (1 n)
  show ?case
  proof (cases "n < 10")
    case True
    then show ?thesis
      using unat_digit [of n] by (subst showNat.simps) (simp add: parseInt_def)
  next
    case False
    with 1 have "parseInt (showNat (n div 10)) = n div 10" by simp
    moreover have "unat (of_nat (48 + n mod 10) :: codeunit) = 48 + n mod 10"
      by (rule unat_digit) simp
    ultimately show ?thesis
      using False by (subst showNat.simps) (simp add: parseInt_snoc)
  qed
qed

text \<open>The header that \<open>sendRequest\<close> writes has no carriage return, so the first terminator of a buffer that starts with it is its own.\<close>

definition CR :: codeunit where "CR = 13"

lemma indexOf_skip:
  "c \<noteq> CR \<Longrightarrow> indexOf (c # s) CRLFCRLF = map_option Suc (indexOf s CRLFCRLF)"
proof -
  assume "c \<noteq> CR"
  then have "take (length CRLFCRLF) (c # s) \<noteq> CRLFCRLF"
    by (simp add: CRLFCRLF_def CR_def)
  then show ?thesis
    by (simp only: indexOf.simps if_False)
qed

lemma indexOf_here: "indexOf (CRLFCRLF @ r) CRLFCRLF = Some 0"
  by (simp add: CRLFCRLF_def)

lemma indexOf_after_header:
  "CR \<notin> set h \<Longrightarrow> indexOf (h @ CRLFCRLF @ r) CRLFCRLF = Some (length h)"
proof (induction h)
  case Nil
  show ?case by (simp add: indexOf_here del: indexOf.simps)
next
  case (Cons c h)
  then have "c \<noteq> CR" by auto
  with Cons show ?case
    by (simp add: indexOf_skip del: indexOf.simps)
qed

lemma indexOf_short:
  "length s < 4 \<Longrightarrow> indexOf s CRLFCRLF = None"
proof (induction s)
  case Nil
  show ?case by (simp add: CRLFCRLF_def)
next
  case (Cons c s)
  have "length (take (length CRLFCRLF) (c # s)) \<noteq> length CRLFCRLF"
    using Cons.prems by (simp add: CRLFCRLF_def)
  then have "take (length CRLFCRLF) (c # s) \<noteq> CRLFCRLF"
    by metis
  moreover have "indexOf s CRLFCRLF = None"
    using Cons by simp
  ultimately show ?case
    by (simp only: indexOf.simps if_False option.map)
qed

lemma indexOf_before_terminator:
  "CR \<notin> set h \<Longrightarrow> k < length h + 4 \<Longrightarrow> indexOf (take k (h @ CRLFCRLF @ r)) CRLFCRLF = None"
proof (induction h arbitrary: k)
  case Nil
  then have "length (take k (CRLFCRLF @ r)) < 4" by simp
  then show ?case
    by (simp only: append_Nil indexOf_short)
next
  case (Cons c h)
  show ?case
  proof (cases k)
    case 0
    then show ?thesis by (simp add: CRLFCRLF_def)
  next
    case (Suc k')
    from Cons.prems have c: "c \<noteq> CR" by auto
    have "indexOf (take k' (h @ CRLFCRLF @ r)) CRLFCRLF = None"
      using Cons.IH [of k'] Cons.prems Suc by simp
    then show ?thesis
      using Suc c by (simp add: indexOf_skip del: indexOf.simps)
  qed
qed

definition header :: "nat \<Rightarrow> jsstring" where
  "header n = js ''Content-Length: '' @ showNat n"

lemma digit_not_CR: "isDigit c \<Longrightarrow> c \<noteq> CR"
  by (auto simp: isDigit_def CR_def)

lemma header_no_CR: "CR \<notin> set (header n)"
proof -
  have "CR \<notin> set (js ''Content-Length: '')"
    by (simp add: js_simps CR_def)
  moreover have "CR \<notin> set (showNat n)"
    using showNat_digits [of n] digit_not_CR by (auto simp: list_all_iff)
  ultimately show ?thesis
    by (simp add: header_def)
qed

lemma contentLengthMatch_header: "contentLengthMatch (header n) = Some (showNat n)"
proof -
  have digits: "takeWhile isDigit (showNat n) = showNat n"
    using showNat_digits [of n] by (simp add: list_all_iff takeWhile_eq_all_conv)
  show ?thesis
    using showNat_nonempty [of n]
    by (simp add: header_def js_simps lowerAscii_def digits)
qed


text \<open>A message as it stands in the buffer: the header with the number of characters of the body.\<close>

definition frame :: "jsstring \<Rightarrow> jsstring" where
  "frame content = header (length content) @ CRLFCRLF @ content"

text \<open>One turn of the loop of \<open>processBuffer\<close>, by the three ways it can go.\<close>

lemma processBuffer_wait:
  "indexOf buffer CRLFCRLF = None \<Longrightarrow> processBuffer buffer = ([], buffer)"
  by (subst processBuffer.simps) simp

lemma processBuffer_skip:
  "indexOf buffer CRLFCRLF = Some e \<Longrightarrow> contentLengthMatch (take e buffer) = None \<Longrightarrow>
     processBuffer buffer = processBuffer (drop (e + 4) buffer)"
  by (subst processBuffer.simps) simp

lemma processBuffer_message:
  "indexOf buffer CRLFCRLF = Some e \<Longrightarrow> contentLengthMatch (take e buffer) = Some ds \<Longrightarrow>
     processBuffer buffer =
       (if length buffer < e + 4 + parseInt ds then ([], buffer)
        else (take (parseInt ds) (drop (e + 4) buffer)
                # fst (processBuffer (drop (e + 4 + parseInt ds) buffer)),
              snd (processBuffer (drop (e + 4 + parseInt ds) buffer))))"
  by (subst processBuffer.simps) (simp add: Let_def split: prod.splits)

lemma processBuffer_empty: "processBuffer [] = ([], [])"
  by (rule processBuffer_wait) (simp add: CRLFCRLF_def)

lemma length_CRLFCRLF: "length CRLFCRLF = 4"
  by (simp add: CRLFCRLF_def)

lemma processBuffer_frame:
  "processBuffer (frame content @ rest) =
     (content # fst (processBuffer rest), snd (processBuffer rest))"
proof -
  let ?h = "header (length content)"
  have idx: "indexOf (frame content @ rest) CRLFCRLF = Some (length ?h)"
    using indexOf_after_header [OF header_no_CR, of "length content" "content @ rest"]
    by (simp add: frame_def)
  have head: "contentLengthMatch (take (length ?h) (frame content @ rest)) = Some (showNat (length content))"
    by (simp add: frame_def contentLengthMatch_header)
  have long: "\<not> length (frame content @ rest) < length ?h + 4 + parseInt (showNat (length content))"
    by (simp add: frame_def parseInt_showNat length_CRLFCRLF)
  have msg: "take (parseInt (showNat (length content))) (drop (length ?h + 4) (frame content @ rest)) = content"
    by (simp add: frame_def parseInt_showNat length_CRLFCRLF)
  have after: "drop (length ?h + 4 + parseInt (showNat (length content))) (frame content @ rest) = rest"
    by (simp add: frame_def parseInt_showNat length_CRLFCRLF)
  show ?thesis
    by (simp only: processBuffer_message [OF idx head] long if_False msg after)
qed

lemma processBuffer_partial:
  assumes "k < length (frame content)"
  shows "processBuffer (take k (frame content)) = ([], take k (frame content))"
proof (cases "k < length (header (length content)) + 4")
  case True
  then have "indexOf (take k (frame content)) CRLFCRLF = None"
    using indexOf_before_terminator [OF header_no_CR, of k "length content" content]
    by (simp add: frame_def)
  then show ?thesis
    by (rule processBuffer_wait)
next
  case False
  let ?h = "header (length content)"
  define j where "j = k - (length ?h + 4)"
  have split: "take k (frame content) = ?h @ CRLFCRLF @ take j content"
    using False by (simp add: frame_def j_def length_CRLFCRLF)
  have j: "j < length content"
    using assms False by (simp add: frame_def j_def length_CRLFCRLF)
  have idx: "indexOf (take k (frame content)) CRLFCRLF = Some (length ?h)"
    unfolding split by (rule indexOf_after_header [OF header_no_CR])
  have head: "contentLengthMatch (take (length ?h) (take k (frame content))) = Some (showNat (length content))"
    unfolding split by (simp add: contentLengthMatch_header)
  have short: "length (take k (frame content)) < length ?h + 4 + parseInt (showNat (length content))"
    unfolding split using j by (simp add: parseInt_showNat length_CRLFCRLF)
  show ?thesis
    by (simp only: processBuffer_message [OF idx head] short if_True)
qed

lemma processBuffer_frames:
  "processBuffer (concat (map frame bodies)) = (bodies, [])"
  by (induction bodies) (simp_all add: processBuffer_empty processBuffer_frame)

lemma take_within: "n \<le> length xs \<Longrightarrow> take n (xs @ ys) = take n xs"
  by simp

lemma indexOf_append:
  "indexOf s pat = Some k \<Longrightarrow> indexOf (s @ r) pat = Some k"
proof (induction s arbitrary: k)
  case Nil
  then show ?case by (cases r) (simp_all split: if_splits)
next
  case (Cons c s)
  show ?case
  proof (cases "take (length pat) (c # s) = pat")
    case True
    then have "length (take (length pat) (c # s)) = length pat"
      by simp
    then have "length pat \<le> length (c # s)"
      by simp
    then have "take (length pat) ((c # s) @ r) = take (length pat) (c # s)"
      by (rule take_within)
    with True have "take (length pat) (c # s @ r) = pat"
      by simp
    with True Cons.prems show ?thesis
      by simp
  next
    case False
    with Cons.prems obtain k' where k': "indexOf s pat = Some k'" "k = Suc k'"
      by auto
    then have len: "k' + length pat \<le> length s"
      using indexOf_bound by blast
    have "take (length pat) ((c # s) @ r) \<noteq> pat"
    proof
      assume eq: "take (length pat) ((c # s) @ r) = pat"
      from len have "length pat \<le> length (c # s)" by simp
      then have "take (length pat) ((c # s) @ r) = take (length pat) (c # s)"
        by (rule take_within)
      with eq False show False by simp
    qed
    with Cons.IH [OF k'(1)] k'(2) show ?thesis
      by simp
  qed
qed

lemma processBuffer_resync:
  assumes "indexOf (h @ CRLFCRLF) CRLFCRLF = Some (length h)" "contentLengthMatch h = None"
  shows "processBuffer (h @ CRLFCRLF @ rest) = processBuffer rest"
proof -
  have idx: "indexOf (h @ CRLFCRLF @ rest) CRLFCRLF = Some (length h)"
    using indexOf_append [OF assms(1), of rest] by simp
  have head: "contentLengthMatch (take (length h) (h @ CRLFCRLF @ rest)) = None"
    using assms(2) by simp
  show ?thesis
    by (simp add: processBuffer_skip [OF idx head] length_CRLFCRLF)
qed

text \<open>
  For a string of ASCII characters, bytes and code units are the same numbers, one for one,
  wherever the bytes are split.
\<close>

definition isAscii :: "jsstring \<Rightarrow> bool" where
  "isAscii s \<longleftrightarrow> list_all (\<lambda>c. c < 0x80) s"

definition enc :: "codeunit \<Rightarrow> byte" where
  "enc c = of_nat (unat c)"

definition dec :: "byte \<Rightarrow> codeunit" where
  "dec b = of_nat (unat b)"

lemma unat_enc: "c < 0x80 \<Longrightarrow> unat (enc c) = unat c"
proof -
  assume "c < 0x80"
  then have "unat c < 128"
    by (simp add: word_less_nat_alt)
  then show ?thesis
    using unat_of_nat [of "unat c", where ?'a = 8] by (simp add: enc_def)
qed

lemma dec_enc: "c < 0x80 \<Longrightarrow> dec (enc c) = c"
  by (simp add: dec_def unat_enc)

lemma utf8Encode_ascii: "isAscii s \<Longrightarrow> utf8Encode s = map enc s"
proof (induction s)
  case Nil
  show ?case by simp
next
  case (Cons c s)
  then have "unat c < 128"
    by (simp add: isAscii_def word_less_nat_alt)
  with Cons show ?case
    by (simp add: isAscii_def enc_def Let_def)
qed

lemma byteLength_ascii: "isAscii s \<Longrightarrow> byteLength s = length s"
  by (simp add: byteLength_def utf8Encode_ascii)

lemma utf8Decode_ascii:
  "list_all (\<lambda>b. unat b \<le> 0x7F) bs \<Longrightarrow> utf8Decode 0 0 0 0x80 0xBF bs = map dec bs"
  by (induction bs) (simp_all add: dec_def Let_def)

lemma toString_enc: "isAscii s \<Longrightarrow> toString_utf8 (map enc s) = s"
proof -
  assume a: "isAscii s"
  then have "list_all (\<lambda>b. unat b \<le> 0x7F) (map enc s)"
    by (induction s) (simp_all add: isAscii_def unat_enc word_less_nat_alt)
  then have "toString_utf8 (map enc s) = map dec (map enc s)"
    by (simp add: toString_utf8_def utf8Decode_ascii)
  also have "\<dots> = s"
    using a by (induction s) (simp_all add: isAscii_def dec_enc)
  finally show ?thesis .
qed

lemma isAscii_append: "isAscii (a @ b) \<longleftrightarrow> isAscii a \<and> isAscii b"
  by (simp add: isAscii_def)

lemma isAscii_take: "isAscii s \<Longrightarrow> isAscii (take n s)"
  unfolding isAscii_def list_all_iff by (meson in_set_takeD)

lemma isAscii_drop: "isAscii s \<Longrightarrow> isAscii (drop n s)"
  unfolding isAscii_def list_all_iff by (meson in_set_dropD)

lemma isAscii_showNat: "isAscii (showNat n)"
proof -
  have "isDigit c \<Longrightarrow> c < 0x80" for c
    by (auto simp: isDigit_def word_le_nat_alt word_less_nat_alt)
  then show ?thesis
    using showNat_digits [of n] by (auto simp: isAscii_def list_all_iff)
qed

lemma isAscii_header: "isAscii (header n)"
  by (simp add: header_def isAscii_append isAscii_showNat) (simp add: isAscii_def js_simps)

lemma isAscii_frame: "isAscii content \<Longrightarrow> isAscii (frame content)"
  by (simp add: frame_def isAscii_append isAscii_header) (simp add: isAscii_def CRLFCRLF_def)

lemma requestMessage_ascii: "isAscii content \<Longrightarrow> requestMessage content = frame content"
  by (simp add: requestMessage_def frame_def header_def byteLength_ascii)

lemma socketWrite_ascii:
  "isAscii content \<Longrightarrow> socketWrite (requestMessage content) = map enc (frame content)"
  by (simp add: socketWrite_def requestMessage_ascii utf8Encode_ascii isAscii_frame)

lemma feed_empty_chunks: "concat chunks = [] \<Longrightarrow> feed [] chunks = ([], [])"
proof (induction chunks)
  case Nil
  show ?case by simp
next
  case (Cons c chunks)
  then have "c = []" "concat chunks = []" by simp_all
  with Cons.IH show ?case
    by (simp add: onData_def toString_utf8_def processBuffer_empty)
qed

lemma feed_rest:
  assumes ascii: "isAscii content"
  shows "k < length (frame content) \<Longrightarrow> concat chunks = drop k (map enc (frame content)) \<Longrightarrow>
         feed (take k (frame content)) chunks = ([content], [])"
proof (induction chunks arbitrary: k)
  case Nil
  then have "length (drop k (map enc (frame content))) = 0"
    by simp
  with Nil.prems(1) show ?case by simp
next
  case (Cons c chunks)
  let ?M = "frame content"
  from Cons.prems(2) have parts: "c @ concat chunks = drop k (map enc ?M)"
    by simp
  then have c: "c = take (length c) (drop k (map enc ?M))"
    by (metis append_eq_conv_conj)
  from parts have rest: "concat chunks = drop (k + length c) (map enc ?M)"
    by (metis append_eq_conv_conj drop_drop add.commute)
  from parts have "length c + length (concat chunks) = length ?M - k"
    by (metis length_append length_drop length_map)
  then have bound: "k + length c \<le> length ?M"
    using Cons.prems(1) by simp
  have "c = map enc (take (length c) (drop k ?M))"
    using c by (simp add: take_map drop_map)
  moreover have "isAscii (take (length c) (drop k ?M))"
    using ascii by (simp add: isAscii_frame isAscii_take isAscii_drop)
  ultimately have "toString_utf8 c = take (length c) (drop k ?M)"
    using toString_enc by metis
  then have buffer: "take k ?M @ toString_utf8 c = take (k + length c) ?M"
    by (simp add: take_add)
  show ?case
  proof (cases "k + length c < length ?M")
    case True
    then have "onData (take k ?M) c = ([], take (k + length c) ?M)"
      by (simp add: onData_def buffer processBuffer_partial)
    with Cons.IH [OF True rest] show ?thesis
      by simp
  next
    case False
    with bound have full: "k + length c = length ?M" by simp
    then have "take (k + length c) ?M = ?M @ []" by simp
    then have "onData (take k ?M) c = ([content], [])"
      by (simp only: onData_def buffer processBuffer_frame processBuffer_empty fst_conv snd_conv)
    moreover from rest full have "concat chunks = []" by simp
    then have "feed [] chunks = ([], [])"
      by (rule feed_empty_chunks)
    ultimately show ?thesis
      by simp
  qed
qed

section \<open>The framer on messages that are not ASCII\<close>

text \<open>Message texts for concrete runs: a response with a string result.\<close>

definition quoted :: "jsstring \<Rightarrow> jsstring" where
  "quoted s = [dquote] @ s @ [dquote]"

definition response :: "nat \<Rightarrow> jsstring \<Rightarrow> jsstring" where
  "response n r =
     js ''{'' @ quoted (js ''id'') @ js '':'' @ showNat n @ js '','' @
     quoted (js ''result'') @ js '':'' @ quoted r @ js ''}''"

definition cafe :: jsstring where
  "cafe = response 1 (js ''caf'' @ [0xE9])"

definition ok :: jsstring where
  "ok = response 2 (js ''ok'')"

text \<open>
  Claim C2. The round trip fails on the code for a message with a character outside ASCII.
  The text \<open>cafe\<close> has 24 code units and 25 bytes; \<open>sendRequest\<close> writes
  \<open>Content-Length: 25\<close>. Received in one chunk, the buffer holds 24 characters after the
  header, \<open>processBuffer\<close> waits for a 25th and yields no message. Received one byte at a
  time, the two bytes of the character are decoded apart, each to U+FFFD, and the message
  that comes out is not the one sent.
\<close>

theorem non_ascii_message_does_not_round_trip:
  "length cafe = 24 \<and> byteLength cafe = 25
   \<and> feed [] [socketWrite (requestMessage cafe)] = ([], requestMessage cafe)
   \<and> feed [] (map (\<lambda>b. [b]) (socketWrite (requestMessage cafe))) =
       ([response 1 (js ''caf'' @ [0xFFFD, 0xFFFD])], [])"
  by code_simp

text \<open>
  Claim C9. After a header block without \<open>Content-Length\<close> the framer does discard the
  block and go on, but the well-formed message \<open>cafe\<close> that follows is not decoded: the
  framer cuts 25 characters, one into the next header, and then discards what is left of
  that header, so the message \<open>ok\<close> behind it is not extracted either.
\<close>

theorem message_after_malformed_header_is_lost:
  "feed [] [socketWrite (js ''X: 1'' @ CRLFCRLF @ requestMessage cafe @ requestMessage ok)] =
     ([cafe @ js ''C''], ok)"
  by code_simp

section \<open>What the framer does on ASCII messages\<close>

text \<open>
  A message of ASCII characters only, framed by \<open>sendRequest\<close>, is decoded to exactly the
  text that was sent, however the bytes on the socket are split into chunks, and nothing
  is left in the buffer.
\<close>

theorem ascii_message_round_trips:
  assumes "isAscii content" "concat chunks = socketWrite (requestMessage content)"
  shows "feed [] chunks = ([content], [])"
proof -
  have "0 < length (frame content)"
    by (simp add: frame_def CRLFCRLF_def)
  moreover have "concat chunks = drop 0 (map enc (frame content))"
    using assms by (simp add: socketWrite_ascii)
  ultimately have "feed (take 0 (frame content)) chunks = ([content], [])"
    by (rule feed_rest [OF assms(1)])
  then show ?thesis by simp
qed

theorem ascii_message_round_trips_witness:
  "feed [] (map (\<lambda>b. [b]) (socketWrite (requestMessage ok))) = ([ok], [])"
proof -
  have ascii: "isAscii ok"
    by code_simp
  have bytes: "concat (map (\<lambda>b. [b]) bs) = bs" for bs :: "byte list"
    by (induction bs) simp_all
  show ?thesis
    using ascii_message_round_trips [OF ascii bytes] .
qed

text \<open>
  In terms of the buffered text: a header block with no \<open>Content-Length\<close> in it is
  dropped with its terminator and the loop goes on with what follows; a message whose
  \<open>Content-Length\<close> is the number of buffered characters of its body is cut out whole,
  whatever follows it; and a buffer of several such messages is emptied in one call, the
  messages in order.
\<close>

theorem framer_resynchronizes_and_extracts_all:
  "(indexOf (h @ CRLFCRLF) CRLFCRLF = Some (length h) \<and> contentLengthMatch h = None \<longrightarrow>
      processBuffer (h @ CRLFCRLF @ rest) = processBuffer rest)
   \<and> processBuffer (frame content @ rest) =
       (content # fst (processBuffer rest), snd (processBuffer rest))
   \<and> processBuffer (concat (map frame bodies)) = (bodies, [])"
  by (simp add: processBuffer_resync processBuffer_frame processBuffer_frames)

theorem framer_resynchronizes_and_extracts_all_witness:
  "processBuffer (js ''X: 1'' @ CRLFCRLF @ frame ok @ frame ok) = ([ok, ok], [])"
proof -
  have junk: "indexOf (js ''X: 1'' @ CRLFCRLF) CRLFCRLF = Some (length (js ''X: 1'')) \<and>
      contentLengthMatch (js ''X: 1'') = None"
    by code_simp
  have "processBuffer (js ''X: 1'' @ CRLFCRLF @ concat (map frame [ok, ok])) = ([ok, ok], [])"
    using framer_resynchronizes_and_extracts_all
      [of "js ''X: 1''" "concat (map frame [ok, ok])" ok "[ok, ok]"] junk
    by simp
  then show ?thesis
    by simp
qed

section \<open>The address of a workspace\<close>





end
